theory Spec2Isabelle
  imports Main "HOL-Library.Sublist" "HOL-Library.AList"
begin

section \<open>Python preliminaries\<close>

text \<open>
  The exceptions the modelled functions can raise. A function that can raise returns
  \<open>py_error + 'a\<close>, with \<open>Inl\<close> for the exception.
\<close>

datatype py_error = ValueError | TypeError | AttributeError | IndexError

text \<open>
  A Python string is the list of its characters, and a character is a code point below
  256 (the Latin-1 range, which holds every string literal of the sources).
  \<^verbatim>\<open>str.startswith\<close> and \<^verbatim>\<open>str.endswith\<close> compare character by character.
\<close>

definition startswith :: "string \<Rightarrow> string \<Rightarrow> bool" where
  "startswith s p = prefix p s"

definition endswith :: "string \<Rightarrow> string \<Rightarrow> bool" where
  "endswith s p = suffix p s"

text \<open>
  \<^verbatim>\<open>string.ascii_lowercase\<close>, and \<^verbatim>\<open>str.lower\<close> on ASCII text: it is applied to
  class names only.
\<close>

definition ascii_lowercase :: string where
  "ascii_lowercase = ''abcdefghijklmnopqrstuvwxyz''"

definition ascii_uppercase :: string where
  "ascii_uppercase = ''ABCDEFGHIJKLMNOPQRSTUVWXYZ''"

definition lower_char :: "char \<Rightarrow> char" where
  "lower_char c =
     (case map_of (zip ascii_uppercase ascii_lowercase) c of Some l \<Rightarrow> l | None \<Rightarrow> c)"

definition lower :: "string \<Rightarrow> string" where
  "lower s = map lower_char s"

section \<open>Messages\<close>

text \<open>
  The STIX-2 objects the translator reads: of an Indicator its \<^verbatim>\<open>id\<close>, \<^verbatim>\<open>created\<close>,
  \<^verbatim>\<open>pattern\<close> and the custom property \<^verbatim>\<open>x_threatbus_update\<close> (\<open>None\<close> when the
  object does not carry it); of a Sighting \<^verbatim>\<open>created\<close> and \<^verbatim>\<open>sighting_of_ref\<close>.
  Timestamps are opaque numbers.
\<close>

record indicator =
  ind_id :: string
  ind_created :: int
  ind_pattern :: string
  x_threatbus_update :: "string option"

record sighting =
  sighting_created :: int
  sighting_of_ref :: string

text \<open>
  The classes of the messages on the bus. \<^verbatim>\<open>Indicator\<close> and \<^verbatim>\<open>Sighting\<close> are the STIX-2
  classes the Zeek mapping imports; \<^verbatim>\<open>Intel\<close>, \<^verbatim>\<open>SnapshotRequest\<close> and
  \<^verbatim>\<open>SnapshotEnvelope\<close> are the classes the RabbitMQ backbone imports from
  \<^verbatim>\<open>threatbus.data\<close>, which is not among the sources: each carries its id only.
  \<open>type_name\<close> is \<^verbatim>\<open>type(msg).__name__\<close>.
\<close>

datatype message =
    Indicator indicator
  | Sighting sighting
  | Intel string
  | SnapshotRequest string
  | SnapshotEnvelope string

fun type_name :: "message \<Rightarrow> string" where
  "type_name (Indicator _) = ''Indicator''"
| "type_name (Sighting _) = ''Sighting''"
| "type_name (Intel _) = ''Intel''"
| "type_name (SnapshotRequest _) = ''SnapshotRequest''"
| "type_name (SnapshotEnvelope _) = ''SnapshotEnvelope''"

section \<open>The subscription registry of the backbones\<close>

text \<open>
  Both backbones keep \<^verbatim>\<open>subscriptions = defaultdict(set)\<close>: a dictionary from topic to
  the set of subscriber queues. The dictionary is an association list in insertion
  order with distinct keys; a queue is identified by a number, and the contents of all
  queues are a store from queue to the list of messages put into it (oldest first).
  The queues are created unbounded, so \<^verbatim>\<open>put\<close> never blocks. The lock taken around
  every access serialises the operations; the model is the serialised behaviour.
\<close>

type_synonym queue_id = nat

type_synonym registry = "(string \<times> queue_id set) list"

type_synonym 'm queues = "queue_id \<Rightarrow> 'm list"

definition no_messages :: "'m queues" where
  "no_messages = (\<lambda>q. [])"

text \<open>
  \<^verbatim>\<open>subscriptions[topic]\<close> on a \<^verbatim>\<open>defaultdict(set)\<close>: a missing key is inserted with
  the empty set. The result is the set and the dictionary after the access.
\<close>

definition getitem :: "registry \<Rightarrow> string \<Rightarrow> queue_id set \<times> registry" where
  "getitem subs topic =
     (case map_of subs topic of
        Some outqs \<Rightarrow> (outqs, subs)
      | None \<Rightarrow> ({}, subs @ [(topic, {})]))"

text \<open>\<^verbatim>\<open>subscriptions[topic].add(q)\<close>\<close>

definition registry_add :: "string \<Rightarrow> queue_id \<Rightarrow> registry \<Rightarrow> registry" where
  "registry_add topic q subs =
     (case getitem subs topic of
        (outqs, subs') \<Rightarrow> AList.update topic (insert q outqs) subs')"

text \<open>\<^verbatim>\<open>if q in subscriptions[topic]: subscriptions[topic].remove(q)\<close>\<close>

definition registry_remove :: "string \<Rightarrow> queue_id \<Rightarrow> registry \<Rightarrow> registry" where
  "registry_remove topic q subs =
     (case getitem subs topic of
        (outqs, subs') \<Rightarrow>
          if q \<in> outqs then AList.update topic (outqs - {q}) subs' else subs')"

text \<open>Reading the set of a key that is present (no insertion happens).\<close>

definition subscribers :: "registry \<Rightarrow> string \<Rightarrow> queue_id set" where
  "subscribers subs t = (case map_of subs t of Some outqs \<Rightarrow> outqs | None \<Rightarrow> {})"

text \<open>
  The fan-out both backbones share:
  \<^verbatim>\<open>for t in filter(lambda t: str(topic).startswith(str(t)), subscriptions.keys()):
      for outq in subscriptions[t]:
          outq.put(msg)\<close>
  The inner loop puts the message once into every queue of the set; the queues are
  distinct objects, so the order of the set's iteration does not show in the store.
\<close>

definition put_all :: "'m \<Rightarrow> queue_id set \<Rightarrow> 'm queues \<Rightarrow> 'm queues" where
  "put_all msg outqs qs = (\<lambda>q. if q \<in> outqs then qs q @ [msg] else qs q)"

definition matching_topics :: "string \<Rightarrow> registry \<Rightarrow> string list" where
  "matching_topics topic subs = filter (\<lambda>t. startswith topic t) (map fst subs)"

definition fan_out :: "string \<Rightarrow> 'm \<Rightarrow> registry \<Rightarrow> 'm queues \<Rightarrow> 'm queues" where
  "fan_out topic msg subs qs =
     fold (\<lambda>t. put_all msg (subscribers subs t)) (matching_topics topic subs) qs"

section \<open>The in-memory backbone\<close>

record inmem_state =
  inmem_subscriptions :: registry
  inmem_queues :: "message queues"
  inmem_debug_log :: "message list"

text \<open>
  One iteration of the loop of \<^verbatim>\<open>provision\<close>, for the message \<open>msg\<close> taken from the
  in-queue: the debug line, the topic
  \<^verbatim>\<open>f"tenzir/threatbus/{type(msg).__name__.lower()}"\<close>, and the fan-out.
\<close>

definition inmem_topic :: "message \<Rightarrow> string" where
  "inmem_topic msg = ''tenzir/threatbus/'' @ lower (type_name msg)"

definition provision_step :: "message \<Rightarrow> inmem_state \<Rightarrow> inmem_state" where
  "provision_step msg st =
     st\<lparr>inmem_debug_log := inmem_debug_log st @ [msg],
        inmem_queues :=
          fan_out (inmem_topic msg) msg (inmem_subscriptions st) (inmem_queues st)\<rparr>"

text \<open>
  The loop \<^verbatim>\<open>while True: msg = inq.get(block=True); ...\<close> run on the messages that are
  in the in-queue: the state in which the worker blocks on the empty queue.
\<close>

fun provision :: "message list \<Rightarrow> inmem_state \<Rightarrow> inmem_state" where
  "provision [] st = st"
| "provision (msg # inq) st = provision inq (provision_step msg st)"

text \<open>\<^verbatim>\<open>subscribe(topics, q)\<close> and \<^verbatim>\<open>unsubscribe(topics, q)\<close>: one pass over \<open>topics\<close>.\<close>

fun subscribe_topics :: "string list \<Rightarrow> queue_id \<Rightarrow> registry \<Rightarrow> registry" where
  "subscribe_topics [] q subs = subs"
| "subscribe_topics (topic # topics) q subs =
     subscribe_topics topics q (registry_add topic q subs)"

fun unsubscribe_topics :: "string list \<Rightarrow> queue_id \<Rightarrow> registry \<Rightarrow> registry" where
  "unsubscribe_topics [] q subs = subs"
| "unsubscribe_topics (topic # topics) q subs =
     unsubscribe_topics topics q (registry_remove topic q subs)"

definition inmem_subscribe :: "string list \<Rightarrow> queue_id \<Rightarrow> inmem_state \<Rightarrow> inmem_state" where
  "inmem_subscribe topics q st =
     st\<lparr>inmem_subscriptions := subscribe_topics topics q (inmem_subscriptions st)\<rparr>"

definition inmem_unsubscribe :: "string list \<Rightarrow> queue_id \<Rightarrow> inmem_state \<Rightarrow> inmem_state" where
  "inmem_unsubscribe topics q st =
     st\<lparr>inmem_subscriptions := unsubscribe_topics topics q (inmem_subscriptions st)\<rparr>"

section \<open>The RabbitMQ backbone\<close>

text \<open>
  What the consumer thread does, in order: the lines it logs, taking and releasing the
  lock, the puts of the fan-out (one effect for every matching key: the message is put
  into each queue of that key's set), and the deliveries it acknowledges on the channel
  (\<^verbatim>\<open>channel.basic_ack(delivery_tag=...)\<close>). The decoded messages are values of any
  type \<open>'v\<close>. \<^verbatim>\<open>subscribe\<close> and \<^verbatim>\<open>unsubscribe\<close> are called from other threads and
  leave no effect in this trace.
\<close>

datatype 'v rabbitmq_effect =
    DebugRelaying 'v
  | ErrorDecoding string
  | LockAcquire
  | PutAll "queue_id set" 'v
  | LockRelease
  | BasicAck nat

record 'v rabbitmq_state =
  rabbitmq_subscriptions :: registry
  rabbitmq_queues :: "'v queues"
  rabbitmq_trace :: "'v rabbitmq_effect list"

text \<open>
  \<^verbatim>\<open>provision(topic, msg)\<close>: the debug line, then under the lock the loop over the keys
  that are a prefix of \<open>topic\<close>, in the dictionary's order; for each key the message is
  put into every queue of the key's set.
\<close>

definition effect :: "'v rabbitmq_effect \<Rightarrow> 'v rabbitmq_state \<Rightarrow> 'v rabbitmq_state" where
  "effect e st = st\<lparr>rabbitmq_trace := rabbitmq_trace st @ [e]\<rparr>"

fun relay :: "'v \<Rightarrow> string list \<Rightarrow> 'v rabbitmq_state \<Rightarrow> 'v rabbitmq_state" where
  "relay msg [] st = st"
| "relay msg (t # ts) st =
     relay msg ts
       (effect (PutAll (subscribers (rabbitmq_subscriptions st) t) msg)
          (st\<lparr>rabbitmq_queues :=
                put_all msg (subscribers (rabbitmq_subscriptions st) t) (rabbitmq_queues st)\<rparr>))"

definition rabbitmq_provision :: "string \<Rightarrow> 'v \<Rightarrow> 'v rabbitmq_state \<Rightarrow> 'v rabbitmq_state" where
  "rabbitmq_provision topic msg st =
     effect LockRelease
       (relay msg (matching_topics topic (rabbitmq_subscriptions st))
          (effect LockAcquire (effect (DebugRelaying msg) st)))"

text \<open>
  \<^verbatim>\<open>__decode(msg, decoder)\<close>. The decoder classes come from \<^verbatim>\<open>threatbus.data\<close> and
  \<^verbatim>\<open>json.loads\<close> from the standard library, so \<open>decoder\<close> is a parameter: \<open>None\<close>
  when \<^verbatim>\<open>json.loads(msg, cls=decoder)\<close> raises, \<open>Some v\<close> when it returns \<open>v\<close>.
  On an exception the function logs an error and returns Python's \<^verbatim>\<open>None\<close>.
\<close>

definition decode ::
  "(string \<Rightarrow> 'v option) \<Rightarrow> string \<Rightarrow> 'v rabbitmq_state \<Rightarrow> 'v option \<times> 'v rabbitmq_state" where
  "decode decoder body st =
     (case decoder body of
        Some v \<Rightarrow> (Some v, st)
      | None \<Rightarrow> (None, effect (ErrorDecoding body) st))"

definition basic_ack :: "nat \<Rightarrow> 'v rabbitmq_state \<Rightarrow> 'v rabbitmq_state" where
  "basic_ack delivery_tag st = effect (BasicAck delivery_tag) st"

text \<open>
  The four consumer callbacks. Each decodes the body, provisions the message when
  \<^verbatim>\<open>if msg:\<close> holds, and acknowledges the delivery. \<open>truth\<close> is Python's truth value
  of a decoded value (Python's \<^verbatim>\<open>None\<close> is false).
\<close>

definition provision_intel ::
  "(string \<Rightarrow> 'v option) \<Rightarrow> ('v \<Rightarrow> bool) \<Rightarrow> nat \<Rightarrow> string \<Rightarrow> 'v rabbitmq_state \<Rightarrow> 'v rabbitmq_state" where
  "provision_intel decoder truth delivery_tag body st =
     (case decode decoder body st of
        (msg, st1) \<Rightarrow>
          basic_ack delivery_tag
            (case msg of
               Some v \<Rightarrow> if truth v then rabbitmq_provision ''threatbus/intel'' v st1 else st1
             | None \<Rightarrow> st1))"

definition provision_sighting ::
  "(string \<Rightarrow> 'v option) \<Rightarrow> ('v \<Rightarrow> bool) \<Rightarrow> nat \<Rightarrow> string \<Rightarrow> 'v rabbitmq_state \<Rightarrow> 'v rabbitmq_state" where
  "provision_sighting decoder truth delivery_tag body st =
     (case decode decoder body st of
        (msg, st1) \<Rightarrow>
          basic_ack delivery_tag
            (case msg of
               Some v \<Rightarrow> if truth v then rabbitmq_provision ''threatbus/sightings'' v st1 else st1
             | None \<Rightarrow> st1))"

definition provision_snapshot_request ::
  "(string \<Rightarrow> 'v option) \<Rightarrow> ('v \<Rightarrow> bool) \<Rightarrow> nat \<Rightarrow> string \<Rightarrow> 'v rabbitmq_state \<Rightarrow> 'v rabbitmq_state" where
  "provision_snapshot_request decoder truth delivery_tag body st =
     (case decode decoder body st of
        (msg, st1) \<Rightarrow>
          basic_ack delivery_tag
            (case msg of
               Some v \<Rightarrow> if truth v then rabbitmq_provision ''threatbus/snapshotrequest'' v st1 else st1
             | None \<Rightarrow> st1))"

definition provision_snapshot_envelope ::
  "(string \<Rightarrow> 'v option) \<Rightarrow> ('v \<Rightarrow> bool) \<Rightarrow> nat \<Rightarrow> string \<Rightarrow> 'v rabbitmq_state \<Rightarrow> 'v rabbitmq_state" where
  "provision_snapshot_envelope decoder truth delivery_tag body st =
     (case decode decoder body st of
        (msg, st1) \<Rightarrow>
          basic_ack delivery_tag
            (case msg of
               Some v \<Rightarrow> if truth v then rabbitmq_provision ''threatbus/snapshotenvelope'' v st1 else st1
             | None \<Rightarrow> st1))"

text \<open>
  The callbacks \<^verbatim>\<open>consume_rabbitmq\<close> registers with \<^verbatim>\<open>basic_consume\<close>, each with the
  topic it provisions on.
\<close>

definition consumer_callbacks ::
  "(((string \<Rightarrow> 'v option) \<Rightarrow> ('v \<Rightarrow> bool) \<Rightarrow> nat \<Rightarrow> string \<Rightarrow> 'v rabbitmq_state \<Rightarrow> 'v rabbitmq_state)
     \<times> string) list" where
  "consumer_callbacks =
     [(provision_intel, ''threatbus/intel''),
      (provision_sighting, ''threatbus/sightings''),
      (provision_snapshot_request, ''threatbus/snapshotrequest''),
      (provision_snapshot_envelope, ''threatbus/snapshotenvelope'')]"

text \<open>\<^verbatim>\<open>subscribe(topic, q)\<close> and \<^verbatim>\<open>unsubscribe(topic, q)\<close> of this backbone.\<close>

definition rabbitmq_subscribe :: "string \<Rightarrow> queue_id \<Rightarrow> 'v rabbitmq_state \<Rightarrow> 'v rabbitmq_state" where
  "rabbitmq_subscribe topic q st =
     st\<lparr>rabbitmq_subscriptions := registry_add topic q (rabbitmq_subscriptions st)\<rparr>"

definition rabbitmq_unsubscribe :: "string \<Rightarrow> queue_id \<Rightarrow> 'v rabbitmq_state \<Rightarrow> 'v rabbitmq_state" where
  "rabbitmq_unsubscribe topic q st =
     st\<lparr>rabbitmq_subscriptions := registry_remove topic q (rabbitmq_subscriptions st)\<rparr>"

section \<open>The Zeek message mapping\<close>

subsection \<open>Broker data and events\<close>

text \<open>
  The Broker values an event carries, as far as the mapping looks at them, with
  Python's truth value of each: \<^verbatim>\<open>None\<close>, \<^verbatim>\<open>False\<close>, zero, the empty string and the
  zero \<^verbatim>\<open>timedelta\<close> are false, a \<^verbatim>\<open>datetime\<close> is always true.
\<close>

datatype broker_data =
    BNone
  | BBool bool
  | BInteger int
  | BString string
  | BTimespan int
  | BTimestamp int

fun truthy :: "broker_data \<Rightarrow> bool" where
  "truthy BNone = False"
| "truthy (BBool b) = b"
| "truthy (BInteger n) = (n \<noteq> 0)"
| "truthy (BString s) = (s \<noteq> [])"
| "truthy (BTimespan d) = (d \<noteq> 0)"
| "truthy (BTimestamp t) = True"

text \<open>\<^verbatim>\<open>broker.zeek.Event\<close>: a name and its positional arguments.\<close>

record zeek_event =
  event_name :: string
  event_args :: "broker_data list"

datatype task =
    Subscription broker_data broker_data
  | Unsubscription broker_data
  | OtherTask

subsection \<open>Management messages\<close>

text \<open>
  The two lines both tool-to-bus mappings start with:
  \<^verbatim>\<open>module_namespace = module_namespace + "::" if module_namespace else ""
  name = name[name.startswith(module_namespace) and len(module_namespace) :]\<close>
  When \<^verbatim>\<open>startswith\<close> is false the slice starts at \<^verbatim>\<open>False\<close>, that is at 0.
\<close>

definition strip_namespace :: "string \<Rightarrow> string \<Rightarrow> string" where
  "strip_namespace name module_namespace =
     (let ns = (if module_namespace \<noteq> [] then module_namespace @ ''::'' else [])
      in if startswith name ns then drop (length ns) name else drop 0 name)"

definition map_management_message :: "zeek_event \<Rightarrow> string \<Rightarrow> task option" where
  "map_management_message event module_namespace =
     (let name = strip_namespace (event_name event) module_namespace;
          args = event_args event
      in if name = ''subscribe'' \<and> length args = 2 then
           (let topic = args ! 0; snapshot_delta = args ! 1
            in if truthy topic then Some (Subscription topic snapshot_delta) else None)
         else if name = ''unsubscribe'' \<and> length args = 1 then
           (let topic = args ! 0
            in if truthy topic then Some (Unsubscription topic) else None)
         else None)"

subsection \<open>Indicators to Zeek intel\<close>

text \<open>
  \<^verbatim>\<open>str.split(sep)\<close> for a separator of one character: the pieces between the
  occurrences of the separator, one more than there are occurrences.
\<close>

fun py_split :: "char \<Rightarrow> string \<Rightarrow> string list" where
  "py_split sep [] = [[]]"
| "py_split sep (c # cs) =
     (if c = sep then [] # py_split sep cs
      else (case py_split sep cs of p # ps \<Rightarrow> (c # p) # ps | [] \<Rightarrow> [[c]]))"

text \<open>
  \<^verbatim>\<open>str.strip()\<close> removes at both ends the characters for which \<^verbatim>\<open>str.isspace\<close> holds.
  Below 256 these are the ASCII whitespace (tab to carriage return, the four separators
  \<^verbatim>\<open>\x1c\<close> to \<^verbatim>\<open>\x1f\<close>, the space), the next-line character U+0085 and the no-break
  space U+00A0.
\<close>

definition whitespace :: "char list" where
  "whitespace =
     [CHR 0x09, CHR 0x0A, CHR 0x0B, CHR 0x0C, CHR 0x0D, CHR 0x1C, CHR 0x1D, CHR 0x1E, CHR 0x1F,
      CHR 0x20, CHR 0x85, CHR 0xA0]"

definition strip :: "string \<Rightarrow> string" where
  "strip s = rev (dropWhile (\<lambda>c. c \<in> set whitespace) (rev (dropWhile (\<lambda>c. c \<in> set whitespace) s)))"

text \<open>The slice \<^verbatim>\<open>s[1:-1]\<close>.\<close>

definition slice_1_m1 :: "string \<Rightarrow> string" where
  "slice_1_m1 s = butlast (drop 1 s)"

text \<open>
  \<^verbatim>\<open>if ioc_value.startswith("'") and ioc_value.endswith("'"): ioc_value = ioc_value[1:-1]\<close>;
  \<open>CHR 0x27\<close> is the single quote.
\<close>

definition unquote :: "string \<Rightarrow> string" where
  "unquote ioc_value =
     (if startswith ioc_value [CHR 0x27] \<and> endswith ioc_value [CHR 0x27]
      then slice_1_m1 ioc_value else ioc_value)"

text \<open>The table \<^verbatim>\<open>zeek_intel_type_map\<close>.\<close>

definition zeek_intel_type_map :: "string \<Rightarrow> string option" where
  "zeek_intel_type_map =
     map_of
       [(''domain-name:value'', ''DOMAIN''),
        (''email-addr:value'', ''EMAIL''),
        (''file:name'', ''FILE_NAME''),
        (''file:hashes.MD5'', ''FILE_HASH''),
        (''file:hashes.'SHA-1'' @ [CHR 0x27], ''FILE_HASH''),
        (''file:hashes.'SHA-256'' @ [CHR 0x27], ''FILE_HASH''),
        (''file:hashes.'SHA-512'' @ [CHR 0x27], ''FILE_HASH''),
        (''file:hashes.'SHA3-256'' @ [CHR 0x27], ''FILE_HASH''),
        (''file:hashes.'SHA3-512'' @ [CHR 0x27], ''FILE_HASH''),
        (''file:hashes.SSDEEP'', ''FILE_HASH''),
        (''file:hashes.TLSH'', ''FILE_HASH''),
        (''ipv4-addr:value'', ''ADDR''),
        (''ipv6-addr:value'', ''ADDR''),
        (''software:name'', ''SOFTWARE''),
        (''url:value'', ''URL''),
        (''user:user_id'', ''USER_NAME''),
        (''user:account_login'', ''USER_NAME''),
        (''x509-certificate:hashes.'SHA-1'' @ [CHR 0x27], ''CERT_HASH'')]"

text \<open>
  What \<^verbatim>\<open>Pattern(pattern_str).inspect()\<close> of the library stix2patterns returns: the
  comparisons by object type, each a tuple of the property path, the operator and the
  value as written; the observation operators; the qualifiers. The parser is not part
  of the repository, so the functions below take it as the parameter \<open>inspect\<close>.
\<close>

type_synonym comparison = "string list \<times> string \<times> string"

record pattern_data =
  comparisons :: "(string \<times> comparison list) list"
  observation_ops :: "string set"
  qualifiers :: "string set"

text \<open>
  \<^verbatim>\<open>is_point_equality_ioc\<close>. The conjunction is evaluated left to right, so the
  first comparison of the only object type is read only when there is exactly one
  object type; reading the first element of an empty list raises. A comparison is a
  triple, so \<^verbatim>\<open>len(...) == 3\<close> holds of it.
\<close>

definition is_point_equality_ioc :: "(string \<Rightarrow> pattern_data) \<Rightarrow> string \<Rightarrow> py_error + bool" where
  "is_point_equality_ioc inspect pattern_str =
     (let il = inspect pattern_str;
          cybox_types = map fst (comparisons il)
      in if observation_ops il = {} \<and> qualifiers il = {}
            \<and> length (comparisons il) = 1 \<and> length cybox_types = 1
         then (case map_of (comparisons il) (cybox_types ! 0) of
                 Some (first # others) \<Rightarrow> Inr (fst (snd first) = ''='')
               | _ \<Rightarrow> Inl IndexError)
         else Inr False)"

text \<open>
  \<^verbatim>\<open>re.sub(r"^https?://", "", ioc_value)\<close>: without the multi-line flag \<^verbatim>\<open>^\<close> matches
  at the start of the string only, so at most one match, at position 0, is replaced by
  the empty string.
\<close>

definition re_sub_scheme :: "string \<Rightarrow> string" where
  "re_sub_scheme ioc_value =
     (if startswith ioc_value ''https://'' then drop 8 ioc_value
      else if startswith ioc_value ''http://'' then drop 7 ioc_value
      else ioc_value)"

text \<open>
  \<^verbatim>\<open>re.match(".+/.+", ioc_value)\<close>: a match starts at position 0 and need not reach the
  end; \<^verbatim>\<open>.\<close> is any character but the newline. So there is a match when the part of
  the string before its first newline has a slash that is neither its first nor its
  last character.
\<close>

definition re_match_subnet :: "string \<Rightarrow> bool" where
  "re_match_subnet ioc_value =
     (CHR ''/'' \<in> set (butlast (drop 1 (takeWhile (\<lambda>c. c \<noteq> CHR 0x0A) ioc_value))))"

text \<open>
  The two regular expressions of the mapping, with the usual meaning of a regular
  expression as the set of strings it matches: \<^verbatim>\<open>.\<close> is any character but the newline,
  \<^verbatim>\<open>?\<close> is zero or one, \<^verbatim>\<open>+\<close> is one or more. \<^verbatim>\<open>re.match\<close> succeeds when some
  prefix of the string is matched; \<^verbatim>\<open>re.sub\<close> with a pattern anchored by \<^verbatim>\<open>^\<close>
  removes the matched prefix. The functions \<open>re_sub_scheme\<close> and \<open>re_match_subnet\<close>
  above are compared with this meaning below.
\<close>

datatype regex = Eps | Dot | Lit char | Opt regex | Plus regex | Seq regex regex

inductive re_lang :: "regex \<Rightarrow> string \<Rightarrow> bool" where
  eps: "re_lang Eps []"
| dot: "c \<noteq> CHR 0x0A \<Longrightarrow> re_lang Dot [c]"
| lit: "re_lang (Lit c) [c]"
| opt_none: "re_lang (Opt r) []"
| opt_some: "re_lang r u \<Longrightarrow> re_lang (Opt r) u"
| plus_one: "re_lang r u \<Longrightarrow> re_lang (Plus r) u"
| plus_more: "re_lang r u \<Longrightarrow> re_lang (Plus r) w \<Longrightarrow> re_lang (Plus r) (u @ w)"
| seq: "re_lang r u \<Longrightarrow> re_lang s w \<Longrightarrow> re_lang (Seq r s) (u @ w)"

fun literal :: "string \<Rightarrow> regex" where
  "literal [] = Eps"
| "literal (c # cs) = Seq (Lit c) (literal cs)"

definition scheme_re :: regex where
  "scheme_re = Seq (literal ''http'') (Seq (Opt (Lit CHR ''s'')) (literal ''://''))"

definition subnet_re :: regex where
  "subnet_re = Seq (Plus Dot) (Seq (Lit CHR ''/'') (Plus Dot))"

text \<open>
  Modelled from the spec: the value of \<^verbatim>\<open>Operation.REMOVE\<close>, an enumeration of
  \<^verbatim>\<open>threatbus.data\<close>, which is not among the sources. The spec names the operation
  \<^verbatim>\<open>REMOVE\<close>.
\<close>

definition Operation_REMOVE :: string where
  "Operation_REMOVE = ''REMOVE''"

text \<open>
  The logger of the mapping is \<open>None\<close> (the callers may pass \<^verbatim>\<open>None\<close>) or the debug
  lines written so far. \<^verbatim>\<open>logger.debug(...)\<close> on \<^verbatim>\<open>None\<close> raises.
\<close>

datatype debug_line =
    ExpectedIndicator message
  | CompoundPattern string
  | NoZeekType string

definition debug :: "debug_line \<Rightarrow> debug_line list option \<Rightarrow> py_error + debug_line list option" where
  "debug line logger =
     (case logger of
        None \<Rightarrow> Inl AttributeError
      | Some lines \<Rightarrow> Inr (Some (lines @ [line])))"

text \<open>
  \<^verbatim>\<open>map_indicator_to_broker_event\<close>. The result is the exception raised, or the event
  (\<open>None\<close> for Python's \<^verbatim>\<open>None\<close>) with the logger after the call. Unpacking the
  pieces of the split into two names raises \<^verbatim>\<open>ValueError\<close> unless there are exactly
  two pieces. The event is built from its name and one tuple of five values;
  \<open>event_args\<close> lists the elements of that tuple.
\<close>

definition map_indicator_to_broker_event ::
  "(string \<Rightarrow> pattern_data) \<Rightarrow> message \<Rightarrow> string \<Rightarrow> debug_line list option
     \<Rightarrow> py_error + (zeek_event option \<times> debug_line list option)" where
  "map_indicator_to_broker_event inspect msg module_namespace logger =
     (case msg of
        Indicator indicator \<Rightarrow>
          (case is_point_equality_ioc inspect (ind_pattern indicator) of
             Inl e \<Rightarrow> Inl e
           | Inr point \<Rightarrow>
               if \<not> point then
                 (case debug (CompoundPattern (ind_pattern indicator)) logger of
                    Inl e \<Rightarrow> Inl e
                  | Inr logger' \<Rightarrow> Inr (None, logger'))
               else
                 (case py_split CHR ''='' (slice_1_m1 (ind_pattern indicator)) of
                    [object_path, ioc_value] \<Rightarrow>
                      (let object_path = strip object_path;
                           ioc_value = strip ioc_value;
                           ioc_value = unquote ioc_value
                       in case zeek_intel_type_map object_path of
                            None \<Rightarrow>
                              (case debug (NoZeekType object_path) logger of
                                 Inl e \<Rightarrow> Inl e
                               | Inr logger' \<Rightarrow> Inr (None, logger'))
                          | Some zeek_type \<Rightarrow>
                              (let (zeek_type, ioc_value) =
                                     (if zeek_type = ''URL'' then (zeek_type, re_sub_scheme ioc_value)
                                      else if zeek_type = ''ADDR'' \<and> re_match_subnet ioc_value
                                      then (''SUBNET'', ioc_value)
                                      else (zeek_type, ioc_value));
                                   operation =
                                     (if x_threatbus_update indicator = Some Operation_REMOVE
                                      then ''REMOVE'' else ''ADD'')
                               in Inr (Some \<lparr>event_name = module_namespace @ ''::intel'',
                                              event_args =
                                                [BTimestamp (ind_created indicator),
                                                 BString (ind_id indicator),
                                                 BString zeek_type,
                                                 BString ioc_value,
                                                 BString operation]\<rparr>,
                                       logger)))
                  | _ \<Rightarrow> Inl ValueError))
      | _ \<Rightarrow>
          Inr (None,
               case logger of
                 None \<Rightarrow> None
               | Some lines \<Rightarrow> Some (lines @ [ExpectedIndicator msg])))"

section \<open>The Zeek plugin\<close>

text \<open>
  \<^verbatim>\<open>rand_string(length)\<close>. \<^verbatim>\<open>random.choice(letters)\<close> returns the letter at an index
  below \<^verbatim>\<open>len(letters)\<close>; \<open>draws i\<close> is the number the generator yields for the
  \<open>i\<close>-th letter, reduced to such an index.
\<close>

definition rand_string :: "nat \<Rightarrow> (nat \<Rightarrow> nat) \<Rightarrow> string" where
  "rand_string len draws =
     map (\<lambda>i. ascii_lowercase ! (draws i mod length ascii_lowercase)) [0..<len]"

text \<open>
  What the plugin does to the outside, in order: the lines it logs, the events it
  publishes on the endpoint, and its calls of the two callbacks into the bus.
\<close>

datatype zeek_effect =
    InfoSubscription broker_data
  | InfoUnsubscription broker_data
  | DebugSkipping
  | Publish string zeek_event
  | SubscribeCallback string queue_id broker_data
  | UnsubscribeCallback string queue_id

text \<open>
  The plugin's dictionary \<^verbatim>\<open>subscriptions\<close> from p2p-topic to queue, the identity the
  next \<^verbatim>\<open>JoinableQueue()\<close> gets, and the effects so far.
\<close>

record zeek_state =
  zeek_subscriptions :: "string \<rightharpoonup> queue_id"
  next_queue :: queue_id
  zeek_trace :: "zeek_effect list"

text \<open>
  The slice \<^verbatim>\<open>s[:k]\<close>: a negative \<open>k\<close> counts from the end, and a bound before the
  start gives the empty string.
\<close>

definition slice_to :: "int \<Rightarrow> string \<Rightarrow> string" where
  "slice_to k s = (if k < 0 then take (nat (int (length s) + k)) s else take (nat k) s)"

text \<open>
  \<^verbatim>\<open>manage_subscription\<close>. Only a string can be concatenated with the suffix, and only
  a string of the values above has a length; another topic raises \<^verbatim>\<open>TypeError\<close>.
  \<open>draws\<close> are the numbers the random generator yields during the call.
\<close>

definition manage_subscription ::
  "string \<Rightarrow> (nat \<Rightarrow> nat) \<Rightarrow> task \<Rightarrow> zeek_state \<Rightarrow> py_error + zeek_state" where
  "manage_subscription module_namespace draws tsk st =
     (let rand_suffix_length = (10 :: nat)
      in case tsk of
           Subscription topic snapshot \<Rightarrow>
             (case topic of
                BString t \<Rightarrow>
                  (let p2p_topic = t @ rand_string rand_suffix_length draws;
                       p2p_q = next_queue st;
                       ack = \<lparr>event_name = module_namespace @ ''::subscription_acknowledged'',
                              event_args = [BString p2p_topic]\<rparr>
                   in Inr (st\<lparr>zeek_trace :=
                                 zeek_trace st @
                                   [InfoSubscription topic,
                                    Publish ''threatbus/manage'' ack,
                                    SubscribeCallback t p2p_q snapshot],
                               next_queue := Suc p2p_q,
                               zeek_subscriptions := (zeek_subscriptions st)(p2p_topic \<mapsto> p2p_q)\<rparr>))
              | _ \<Rightarrow> Inl TypeError)
         | Unsubscription topic \<Rightarrow>
             (case topic of
                BString t \<Rightarrow>
                  (let threatbus_topic = slice_to (int (length t) - int rand_suffix_length) t
                   in case zeek_subscriptions st t of
                        Some p2p_q \<Rightarrow>
                          Inr (st\<lparr>zeek_trace :=
                                     zeek_trace st @
                                       [InfoUnsubscription topic,
                                        UnsubscribeCallback threatbus_topic p2p_q],
                                   zeek_subscriptions := (zeek_subscriptions st)(t := None)\<rparr>)
                      | None \<Rightarrow>
                          Inr (st\<lparr>zeek_trace := zeek_trace st @ [InfoUnsubscription topic]\<rparr>))
              | _ \<Rightarrow> Inl TypeError)
         | OtherTask \<Rightarrow> Inr (st\<lparr>zeek_trace := zeek_trace st @ [DebugSkipping]\<rparr>))"

section \<open>Facts about the registry and the fan-out\<close>

lemma fold_put_all:
  "fold (\<lambda>t. put_all msg (f t)) ts qs q =
     qs q @ replicate (length (filter (\<lambda>t. q \<in> f t) ts)) msg"
  by (induction ts arbitrary: qs) (simp_all add: put_all_def replicate_app_Cons_same)

lemma fan_out_queue:
  "fan_out topic msg subs qs q =
     qs q @ replicate (length (filter (\<lambda>t. q \<in> subscribers subs t) (matching_topics topic subs))) msg"
  by (simp add: fan_out_def fold_put_all)

lemma update_append_fresh:
  "k \<notin> fst ` set al \<Longrightarrow> AList.update k v (al @ bl) = al @ AList.update k v bl"
  by (induction al) auto

lemma keys_update_present:
  "k \<in> fst ` set al \<Longrightarrow> map fst (AList.update k v al) = map fst al"
  by (induction al) auto

lemma registry_add_Some:
  "map_of subs t = Some s \<Longrightarrow> registry_add t q subs = AList.update t (insert q s) subs"
  by (simp add: registry_add_def getitem_def)

lemma registry_add_None:
  "map_of subs t = None \<Longrightarrow> registry_add t q subs = subs @ [(t, {q})]"
proof -
  assume n: "map_of subs t = None"
  then have "t \<notin> fst ` set subs" by (simp add: map_of_eq_None_iff)
  then have "AList.update t (insert q {}) (subs @ [(t, {})]) = subs @ [(t, {q})]"
    by (simp add: update_append_fresh)
  with n show ?thesis by (simp add: registry_add_def getitem_def)
qed

lemma registry_remove_Some:
  "map_of subs t = Some s \<Longrightarrow>
     registry_remove t q subs = (if q \<in> s then AList.update t (s - {q}) subs else subs)"
  by (simp add: registry_remove_def getitem_def)

lemma registry_remove_None:
  "map_of subs t = None \<Longrightarrow> registry_remove t q subs = subs @ [(t, {})]"
  by (simp add: registry_remove_def getitem_def)

lemma present_iff: "t \<in> fst ` set subs \<longleftrightarrow> map_of subs t \<noteq> None"
  by (simp add: map_of_eq_None_iff)

lemma keys_registry_add:
  "map fst (registry_add t q subs) =
     (if t \<in> fst ` set subs then map fst subs else map fst subs @ [t])"
proof (cases "map_of subs t")
  case None
  then show ?thesis by (simp add: registry_add_None present_iff)
next
  case (Some s)
  then have "t \<in> fst ` set subs" by (simp add: present_iff)
  with Some show ?thesis by (simp add: registry_add_Some keys_update_present)
qed

lemma keys_registry_remove:
  "map fst (registry_remove t q subs) =
     (if t \<in> fst ` set subs then map fst subs else map fst subs @ [t])"
proof (cases "map_of subs t")
  case None
  then show ?thesis by (simp add: registry_remove_None present_iff)
next
  case (Some s)
  then have "t \<in> fst ` set subs" by (simp add: present_iff)
  with Some show ?thesis by (simp add: registry_remove_Some keys_update_present)
qed

lemma subscribers_registry_add:
  "subscribers (registry_add t q subs) k =
     (if k = t then insert q (subscribers subs t) else subscribers subs k)"
proof (cases "map_of subs t")
  case None
  then show ?thesis
    by (auto simp: registry_add_None subscribers_def map_add_def split: option.splits)
next
  case (Some s)
  then show ?thesis by (simp add: registry_add_Some subscribers_def update_conv')
qed

lemma subscribers_registry_remove:
  "subscribers (registry_remove t q subs) k =
     (if k = t then subscribers subs t - {q} else subscribers subs k)"
proof (cases "map_of subs t")
  case None
  then show ?thesis
    by (auto simp: registry_remove_None subscribers_def map_add_def split: option.splits)
next
  case (Some s)
  then show ?thesis by (simp add: registry_remove_Some subscribers_def update_conv')
qed


lemma registry_add_subscribed:
  assumes "q \<in> subscribers subs t"
  shows "registry_add t q subs = subs"
proof (cases "map_of subs t")
  case None
  with assms show ?thesis by (simp add: subscribers_def)
next
  case (Some s)
  with assms have "insert q s = s" by (auto simp: subscribers_def)
  with Some show ?thesis by (simp add: registry_add_Some update_triv)
qed

lemma subscribe_topics_keeps:
  "q \<in> subscribers subs k \<Longrightarrow> q \<in> subscribers (subscribe_topics ts q subs) k"
  by (induction ts arbitrary: subs) (simp_all add: subscribers_registry_add)

lemma subscribe_topics_subscribed:
  "t \<in> set ts \<Longrightarrow> q \<in> subscribers (subscribe_topics ts q subs) t"
proof (induction ts arbitrary: subs)
  case Nil
  then show ?case by simp
next
  case (Cons a ts)
  show ?case
  proof (cases "t = a")
    case True
    then show ?thesis by (simp add: subscribe_topics_keeps subscribers_registry_add)
  next
    case False
    with Cons show ?thesis by simp
  qed
qed

lemma subscribe_topics_fixed:
  "(\<And>t. t \<in> set ts \<Longrightarrow> q \<in> subscribers subs t) \<Longrightarrow> subscribe_topics ts q subs = subs"
  by (induction ts arbitrary: subs) (simp_all add: registry_add_subscribed)

lemma subscribe_topics_twice:
  "subscribe_topics ts q (subscribe_topics ts q subs) = subscribe_topics ts q subs"
  by (rule subscribe_topics_fixed) (rule subscribe_topics_subscribed)

lemma inmem_subscribe_twice:
  "inmem_subscribe topics q (inmem_subscribe topics q st) = inmem_subscribe topics q st"
  by (simp add: inmem_subscribe_def subscribe_topics_twice)

lemma inmem_subscribe_funpow:
  "(inmem_subscribe topics q ^^ Suc n) st = inmem_subscribe topics q st"
  by (induction n) (simp_all add: inmem_subscribe_twice)

lemma distinct_registry_add:
  "distinct (map fst subs) \<Longrightarrow> distinct (map fst (registry_add t q subs))"
  by (simp add: keys_registry_add)

lemma distinct_registry_remove:
  "distinct (map fst subs) \<Longrightarrow> distinct (map fst (registry_remove t q subs))"
  by (simp add: keys_registry_remove)

text \<open>
  The keys of the dictionary stay distinct: every registry reached from the empty one
  by subscribing and unsubscribing has distinct keys.
\<close>

lemma distinct_subscribe_topics:
  "distinct (map fst subs) \<Longrightarrow> distinct (map fst (subscribe_topics ts q subs))"
  by (induction ts arbitrary: subs) (simp_all add: distinct_registry_add)

lemma distinct_unsubscribe_topics:
  "distinct (map fst subs) \<Longrightarrow> distinct (map fst (unsubscribe_topics ts q subs))"
  by (induction ts arbitrary: subs) (simp_all add: distinct_registry_remove)

lemma matching_once:
  assumes d: "distinct (map fst subs)"
    and m: "startswith topic t"
    and o: "\<And>k. k \<noteq> t \<Longrightarrow> startswith topic k \<Longrightarrow> q \<notin> subscribers subs k"
  shows "length (filter (\<lambda>k. q \<in> subscribers (registry_add t q subs) k)
           (matching_topics topic (registry_add t q subs))) = 1"
proof -
  let ?subs = "registry_add t q subs"
  let ?l = "filter (\<lambda>k. q \<in> subscribers ?subs k) (matching_topics topic ?subs)"
  have "distinct ?l"
    using d by (simp add: matching_topics_def distinct_registry_add)
  moreover have "set ?l = {t}"
    using m o by (auto simp: matching_topics_def keys_registry_add subscribers_registry_add
        split: if_splits)
  ultimately have "length ?l = card {t}"
    by (metis distinct_card)
  then show ?thesis by simp
qed

lemma subscribe_then_provision_once:
  assumes "distinct (map fst (inmem_subscriptions st))"
    and "startswith (inmem_topic msg) t"
    and "\<And>k. k \<noteq> t \<Longrightarrow> startswith (inmem_topic msg) k \<Longrightarrow> q \<notin> subscribers (inmem_subscriptions st) k"
  shows "inmem_queues (provision_step msg (inmem_subscribe [t] q st)) q = inmem_queues st q @ [msg]"
  using matching_once[OF assms]
  by (simp add: provision_step_def inmem_subscribe_def fan_out_queue)

section \<open>Facts about the management mapping\<close>

lemma py_split_nonempty: "py_split sep s \<noteq> []"
  by (induction s) (auto split: list.splits)

lemma strip_namespace_bare:
  assumes "CHR '':'' \<notin> set name"
  shows "strip_namespace name module_namespace = name"
proof (cases "module_namespace = []")
  case True
  then show ?thesis by (simp add: strip_namespace_def)
next
  case False
  have "\<not> prefix (module_namespace @ ''::'') name"
  proof
    assume "prefix (module_namespace @ ''::'') name"
    then have "set (module_namespace @ ''::'') \<subseteq> set name"
      by (rule set_mono_prefix)
    with assms show False by simp
  qed
  with False show ?thesis by (simp add: strip_namespace_def startswith_def)
qed

lemma strip_namespace_qualified:
  "module_namespace \<noteq> [] \<Longrightarrow> strip_namespace (module_namespace @ ''::'' @ name) module_namespace = name"
  by (simp add: strip_namespace_def startswith_def)

section \<open>Properties of the management mapping\<close>

text \<open>
  Claim C9. The namespace prefix is stripped only when the event's name starts with it,
  so for every non-empty module namespace the bare names \<^verbatim>\<open>subscribe\<close> and
  \<^verbatim>\<open>unsubscribe\<close> are mapped exactly as the qualified names are, whatever the
  arguments: with two arguments and a true topic the first gives a Subscription, with
  one argument and a true topic the second gives an Unsubscription. An event whose name
  after the stripping is neither of the two is unmappable.
\<close>

theorem bare_management_names_accepted:
  assumes "module_namespace \<noteq> []"
  shows "map_management_message \<lparr>event_name = ''subscribe'', event_args = args\<rparr> module_namespace
           = map_management_message \<lparr>event_name = module_namespace @ ''::'' @ ''subscribe'', event_args = args\<rparr> module_namespace
       \<and> map_management_message \<lparr>event_name = ''unsubscribe'', event_args = args\<rparr> module_namespace
           = map_management_message \<lparr>event_name = module_namespace @ ''::'' @ ''unsubscribe'', event_args = args\<rparr> module_namespace
       \<and> (truthy topic \<longrightarrow>
            map_management_message \<lparr>event_name = ''subscribe'', event_args = [topic, snapshot_delta]\<rparr> module_namespace
              = Some (Subscription topic snapshot_delta))
       \<and> (truthy topic \<longrightarrow>
            map_management_message \<lparr>event_name = ''unsubscribe'', event_args = [topic]\<rparr> module_namespace
              = Some (Unsubscription topic))
       \<and> (strip_namespace name module_namespace \<noteq> ''subscribe''
            \<and> strip_namespace name module_namespace \<noteq> ''unsubscribe'' \<longrightarrow>
            map_management_message \<lparr>event_name = name, event_args = args\<rparr> module_namespace = None)"
proof -
  have bare1: "strip_namespace ''subscribe'' module_namespace = ''subscribe''"
    by (rule strip_namespace_bare) simp
  have bare2: "strip_namespace ''unsubscribe'' module_namespace = ''unsubscribe''"
    by (rule strip_namespace_bare) simp
  have q1: "strip_namespace (module_namespace @ ''::subscribe'') module_namespace = ''subscribe''"
    using strip_namespace_qualified [OF assms, of "''subscribe''"] by simp
  have q2: "strip_namespace (module_namespace @ ''::unsubscribe'') module_namespace = ''unsubscribe''"
    using strip_namespace_qualified [OF assms, of "''unsubscribe''"] by simp
  show ?thesis
    unfolding map_management_message_def Let_def
    by (simp add: bare1 bare2 q1 q2)
qed

theorem bare_management_names_accepted_witness:
  "map_management_message \<lparr>event_name = ''subscribe'', event_args = [BString ''threatbus/intel'', BTimespan 0]\<rparr> ''Tb''
     = Some (Subscription (BString ''threatbus/intel'') (BTimespan 0))
   \<and> map_management_message \<lparr>event_name = ''Tb::subscribe'', event_args = [BString ''threatbus/intel'', BTimespan 0]\<rparr> ''Tb''
     = Some (Subscription (BString ''threatbus/intel'') (BTimespan 0))
   \<and> map_management_message \<lparr>event_name = ''unsubscribe'', event_args = [BString ''threatbus/intelabcdefghij'']\<rparr> ''Tb''
     = Some (Unsubscription (BString ''threatbus/intelabcdefghij''))
   \<and> map_management_message \<lparr>event_name = ''Tb::sighting'', event_args = [BString ''threatbus/intel'']\<rparr> ''Tb'' = None"
  using bare_management_names_accepted
    [where module_namespace = "''Tb''" and args = "[BString ''threatbus/intel'', BTimespan 0]"
       and topic = "BString ''threatbus/intel''" and snapshot_delta = "BTimespan 0"
       and name = "''Tb::sighting''"]
  by (simp add: map_management_message_def strip_namespace_def startswith_def)

section \<open>Properties of subscribing and unsubscribing\<close>

text \<open>
  Claim C10. In the in-memory backbone, subscribing is idempotent for a queue and a
  list of topics: any number of calls of \<^verbatim>\<open>subscribe\<close> with the same arguments leaves
  the state a single call leaves, so provisioning a message afterwards gives the same
  result. When the queue is subscribed to one topic that is a prefix of the message's
  topic, and is registered under no other matching key, the message is put into the
  queue exactly once.
\<close>

theorem inmem_subscribe_idempotent:
  "(inmem_subscribe topics q ^^ Suc n) st = inmem_subscribe topics q st
   \<and> provision_step msg ((inmem_subscribe topics q ^^ Suc n) st)
       = provision_step msg (inmem_subscribe topics q st)
   \<and> (distinct (map fst (inmem_subscriptions st))
        \<and> startswith (inmem_topic msg) t
        \<and> (\<forall>k. k \<noteq> t \<and> startswith (inmem_topic msg) k
               \<longrightarrow> q \<notin> subscribers (inmem_subscriptions st) k)
       \<longrightarrow> inmem_queues (provision_step msg ((inmem_subscribe [t] q ^^ Suc n) st)) q
             = inmem_queues st q @ [msg])"
proof -
  have once: "(inmem_subscribe topics q ^^ Suc n) st = inmem_subscribe topics q st" for topics
    by (rule inmem_subscribe_funpow)
  show ?thesis
    by (simp only: once) (simp add: subscribe_then_provision_once)
qed

theorem inmem_subscribe_idempotent_witness:
  "(inmem_subscribe [''tenzir/threatbus/''] 0 ^^ 3)
       \<lparr>inmem_subscriptions = [], inmem_queues = no_messages, inmem_debug_log = []\<rparr>
     = \<lparr>inmem_subscriptions = [(''tenzir/threatbus/'', {0})], inmem_queues = no_messages,
        inmem_debug_log = []\<rparr>
   \<and> startswith (inmem_topic (Sighting \<lparr>sighting_created = 0, sighting_of_ref = ''indicator--1''\<rparr>))
        ''tenzir/threatbus/''
   \<and> inmem_queues
        (provision_step (Sighting \<lparr>sighting_created = 0, sighting_of_ref = ''indicator--1''\<rparr>)
           ((inmem_subscribe [''tenzir/threatbus/''] 0 ^^ 3)
              \<lparr>inmem_subscriptions = [], inmem_queues = no_messages, inmem_debug_log = []\<rparr>)) 0
     = [Sighting \<lparr>sighting_created = 0, sighting_of_ref = ''indicator--1''\<rparr>]"
  using inmem_subscribe_idempotent
    [where topics = "[''tenzir/threatbus/'']" and q = 0 and n = 2 and t = "''tenzir/threatbus/''"
       and msg = "Sighting \<lparr>sighting_created = 0, sighting_of_ref = ''indicator--1''\<rparr>"
       and st = "\<lparr>inmem_subscriptions = [], inmem_queues = no_messages, inmem_debug_log = []\<rparr>"]
  by (simp add: eval_nat_numeral inmem_subscribe_def registry_add_def getitem_def subscribers_def
      inmem_topic_def lower_def lower_char_def ascii_lowercase_def ascii_uppercase_def
      startswith_def no_messages_def)

lemma subscribers_absent: "t \<notin> fst ` set subs \<Longrightarrow> subscribers subs t = {}"
proof -
  assume "t \<notin> fst ` set subs"
  then have "map_of subs t = None" by (simp add: map_of_eq_None_iff)
  then show ?thesis by (simp add: subscribers_def)
qed

lemma registry_remove_absent:
  assumes "t \<in> fst ` set subs" and "q \<notin> subscribers subs t"
  shows "registry_remove t q subs = subs"
proof -
  from assms(1) obtain s where s: "map_of subs t = Some s"
    by (auto simp: present_iff)
  with assms(2) have "q \<notin> s" by (simp add: subscribers_def)
  with s show ?thesis by (simp add: registry_remove_Some)
qed

lemma keys_registry_remove_mono:
  "k \<in> fst ` set subs \<Longrightarrow> k \<in> fst ` set (registry_remove t q subs)"
proof -
  assume "k \<in> fst ` set subs"
  then have "k \<in> set (map fst subs)" by simp
  then have "k \<in> set (map fst (registry_remove t q subs))"
    by (simp only: keys_registry_remove) (simp split: if_splits)
  then show ?thesis by simp
qed

lemma key_registry_remove: "t \<in> fst ` set (registry_remove t q subs)"
proof -
  have "t \<in> set (map fst (registry_remove t q subs))"
    by (simp only: keys_registry_remove) (simp split: if_splits)
  then show ?thesis by simp
qed

lemma unsubscribe_topics_keys:
  "k \<in> fst ` set subs \<Longrightarrow> k \<in> fst ` set (unsubscribe_topics ts q subs)"
  by (induction ts arbitrary: subs) (simp_all add: keys_registry_remove_mono)

lemma unsubscribe_topics_absent:
  "q \<notin> subscribers subs k \<Longrightarrow> q \<notin> subscribers (unsubscribe_topics ts q subs) k"
  by (induction ts arbitrary: subs) (simp_all add: subscribers_registry_remove)

lemma unsubscribe_topics_unsubscribed:
  "t \<in> set ts \<Longrightarrow>
     t \<in> fst ` set (unsubscribe_topics ts q subs) \<and> q \<notin> subscribers (unsubscribe_topics ts q subs) t"
proof (induction ts arbitrary: subs)
  case Nil
  then show ?case by simp
next
  case (Cons a ts)
  show ?case
  proof (cases "t = a")
    case True
    have "a \<in> fst ` set (unsubscribe_topics ts q (registry_remove a q subs))"
      by (rule unsubscribe_topics_keys) (rule key_registry_remove)
    moreover have "q \<notin> subscribers (unsubscribe_topics ts q (registry_remove a q subs)) a"
      by (rule unsubscribe_topics_absent) (simp add: subscribers_registry_remove)
    ultimately show ?thesis using True by simp
  next
    case False
    with Cons show ?thesis by simp
  qed
qed

lemma unsubscribe_topics_fixed:
  "(\<And>t. t \<in> set ts \<Longrightarrow> t \<in> fst ` set subs \<and> q \<notin> subscribers subs t) \<Longrightarrow>
     unsubscribe_topics ts q subs = subs"
  by (induction ts arbitrary: subs) (simp_all add: registry_remove_absent)

lemma unsubscribe_topics_twice:
  "unsubscribe_topics ts q (unsubscribe_topics ts q subs) = unsubscribe_topics ts q subs"
  by (rule unsubscribe_topics_fixed) (rule unsubscribe_topics_unsubscribed)

lemma registry_remove_twice:
  "registry_remove t q (registry_remove t q subs) = registry_remove t q subs"
  by (rule registry_remove_absent) (simp_all add: key_registry_remove subscribers_registry_remove)

lemma fan_out_registry_remove_absent:
  assumes "q \<notin> subscribers subs t"
  shows "fan_out topic msg (registry_remove t q subs) qs = fan_out topic msg subs qs"
proof (rule ext)
  fix x
  have same: "subscribers (registry_remove t q subs) k = subscribers subs k" for k
    using assms by (simp add: subscribers_registry_remove)
  have "filter (\<lambda>k. x \<in> subscribers subs k) (matching_topics topic (registry_remove t q subs))
        = filter (\<lambda>k. x \<in> subscribers subs k) (matching_topics topic subs)"
    by (simp add: matching_topics_def keys_registry_remove subscribers_absent)
  then show "fan_out topic msg (registry_remove t q subs) qs x = fan_out topic msg subs qs x"
    by (simp add: fan_out_queue same)
qed

lemma fan_out_unsubscribe_topics_absent:
  "(\<And>t. t \<in> set ts \<Longrightarrow> q \<notin> subscribers subs t) \<Longrightarrow>
     fan_out topic msg (unsubscribe_topics ts q subs) qs = fan_out topic msg subs qs"
proof (induction ts arbitrary: subs)
  case Nil
  then show ?case by simp
next
  case (Cons a ts)
  have "fan_out topic msg (unsubscribe_topics ts q (registry_remove a q subs)) qs
        = fan_out topic msg (registry_remove a q subs) qs"
    by (rule Cons.IH) (simp add: subscribers_registry_remove Cons.prems)
  also have "\<dots> = fan_out topic msg subs qs"
    by (rule fan_out_registry_remove_absent) (simp add: Cons.prems)
  finally show ?case by simp
qed

text \<open>
  Claim C4. Unsubscribing a second time with the same arguments changes nothing: the
  state after the second call is the state after the first, in the in-memory backbone
  (for a list of topics) and in the RabbitMQ backbone. Unsubscribing a queue that was
  not subscribed to the topics leaves the queues after any provisioned message as they
  would have been. No call has an error result. In the Zeek plugin, an Unsubscription
  for a p2p-topic that is not in the dictionary writes its info line and does nothing
  else, and so does a second Unsubscription for a p2p-topic after a first one.
\<close>

theorem unsubscribe_again_is_noop:
  "inmem_unsubscribe topics q (inmem_unsubscribe topics q st) = inmem_unsubscribe topics q st
   \<and> rabbitmq_unsubscribe topic q (rabbitmq_unsubscribe topic q rst) = rabbitmq_unsubscribe topic q rst
   \<and> ((\<forall>t \<in> set topics. q \<notin> subscribers (inmem_subscriptions st) t) \<longrightarrow>
        inmem_queues (provision_step msg (inmem_unsubscribe topics q st))
          = inmem_queues (provision_step msg st))
   \<and> (zeek_subscriptions zst p2p_topic = None \<longrightarrow>
        manage_subscription module_namespace draws (Unsubscription (BString p2p_topic)) zst
          = Inr (zst\<lparr>zeek_trace := zeek_trace zst @ [InfoUnsubscription (BString p2p_topic)]\<rparr>))
   \<and> (manage_subscription module_namespace draws (Unsubscription (BString p2p_topic)) zst = Inr zst_after \<longrightarrow>
        manage_subscription module_namespace draws (Unsubscription (BString p2p_topic)) zst_after
          = Inr (zst_after\<lparr>zeek_trace := zeek_trace zst_after @ [InfoUnsubscription (BString p2p_topic)]\<rparr>))"
proof (intro conjI impI)
  show "inmem_unsubscribe topics q (inmem_unsubscribe topics q st) = inmem_unsubscribe topics q st"
    by (simp add: inmem_unsubscribe_def unsubscribe_topics_twice)
  show "rabbitmq_unsubscribe topic q (rabbitmq_unsubscribe topic q rst) = rabbitmq_unsubscribe topic q rst"
    by (simp add: rabbitmq_unsubscribe_def registry_remove_twice)
  show "inmem_queues (provision_step msg (inmem_unsubscribe topics q st))
          = inmem_queues (provision_step msg st)"
    if "\<forall>t \<in> set topics. q \<notin> subscribers (inmem_subscriptions st) t"
    using that by (simp add: provision_step_def inmem_unsubscribe_def fan_out_unsubscribe_topics_absent)
  show "manage_subscription module_namespace draws (Unsubscription (BString p2p_topic)) zst
          = Inr (zst\<lparr>zeek_trace := zeek_trace zst @ [InfoUnsubscription (BString p2p_topic)]\<rparr>)"
    if "zeek_subscriptions zst p2p_topic = None"
    using that by (simp add: manage_subscription_def)
  show "manage_subscription module_namespace draws (Unsubscription (BString p2p_topic)) zst_after
          = Inr (zst_after\<lparr>zeek_trace := zeek_trace zst_after @ [InfoUnsubscription (BString p2p_topic)]\<rparr>)"
    if "manage_subscription module_namespace draws (Unsubscription (BString p2p_topic)) zst = Inr zst_after"
  proof -
    from that have "zeek_subscriptions zst_after p2p_topic = None"
      by (auto simp: manage_subscription_def split: option.splits)
    then show ?thesis by (simp add: manage_subscription_def)
  qed
qed


theorem unsubscribe_again_is_noop_witness:
  "inmem_unsubscribe [''tenzir/threatbus''] 0
       (inmem_unsubscribe [''tenzir/threatbus''] 0
          \<lparr>inmem_subscriptions = [(''tenzir/threatbus'', {0, 1})], inmem_queues = no_messages,
             inmem_debug_log = []\<rparr>)
     = \<lparr>inmem_subscriptions = [(''tenzir/threatbus'', {1})], inmem_queues = no_messages,
          inmem_debug_log = []\<rparr>
   \<and> inmem_queues
        (provision_step (Intel ''intel--1'')
           (inmem_unsubscribe [''tenzir/threatbus'', ''tenzir''] 2
              \<lparr>inmem_subscriptions = [(''tenzir/threatbus'', {0, 1})], inmem_queues = no_messages,
                 inmem_debug_log = []\<rparr>))
     = inmem_queues
        (provision_step (Intel ''intel--1'')
           \<lparr>inmem_subscriptions = [(''tenzir/threatbus'', {0, 1})], inmem_queues = no_messages,
              inmem_debug_log = []\<rparr>)
   \<and> manage_subscription ''Tb'' id (Unsubscription (BString ''threatbus/intelabcdefghij''))
        \<lparr>zeek_subscriptions = Map.empty, next_queue = 0, zeek_trace = []\<rparr>
     = Inr \<lparr>zeek_subscriptions = Map.empty, next_queue = 0,
            zeek_trace = [InfoUnsubscription (BString ''threatbus/intelabcdefghij'')]\<rparr>"
  using unsubscribe_again_is_noop
    [where topics = "[''tenzir/threatbus'']" and q = 0 and msg = "Intel ''intel--1''"
       and st = "\<lparr>inmem_subscriptions = [(''tenzir/threatbus'', {0, 1})], inmem_queues = no_messages,
                   inmem_debug_log = []\<rparr>"
       and topic = "''threatbus/intel''"
       and rst = "\<lparr>rabbitmq_subscriptions = [], rabbitmq_queues = no_messages :: message queues,
                    rabbitmq_trace = []\<rparr>"
       and zst = "\<lparr>zeek_subscriptions = Map.empty, next_queue = 0, zeek_trace = []\<rparr>"
       and zst_after = "\<lparr>zeek_subscriptions = Map.empty, next_queue = 0, zeek_trace = []\<rparr>"
       and p2p_topic = "''threatbus/intelabcdefghij''" and module_namespace = "''Tb''" and draws = id]
    unsubscribe_again_is_noop
    [where topics = "[''tenzir/threatbus'', ''tenzir'']" and q = 2 and msg = "Intel ''intel--1''"
       and st = "\<lparr>inmem_subscriptions = [(''tenzir/threatbus'', {0, 1})], inmem_queues = no_messages,
                   inmem_debug_log = []\<rparr>"
       and topic = "''threatbus/intel''"
       and rst = "\<lparr>rabbitmq_subscriptions = [], rabbitmq_queues = no_messages :: message queues,
                    rabbitmq_trace = []\<rparr>"
       and zst = "\<lparr>zeek_subscriptions = Map.empty, next_queue = 0, zeek_trace = []\<rparr>"
       and zst_after = "\<lparr>zeek_subscriptions = Map.empty, next_queue = 0, zeek_trace = []\<rparr>"
       and p2p_topic = "''threatbus/intelabcdefghij''" and module_namespace = "''Tb''" and draws = id]
  by (simp add: inmem_unsubscribe_def registry_remove_def getitem_def subscribers_def)

section \<open>Properties of the RabbitMQ consumer callbacks\<close>

lemma relay_subscriptions:
  "rabbitmq_subscriptions (relay msg ts st) = rabbitmq_subscriptions st"
  by (induction ts arbitrary: st) (simp_all add: effect_def)

lemma relay_queues:
  "rabbitmq_queues (relay msg ts st) =
     fold (\<lambda>t. put_all msg (subscribers (rabbitmq_subscriptions st) t)) ts (rabbitmq_queues st)"
  by (induction ts arbitrary: st) (simp_all add: effect_def)

lemma relay_trace:
  "rabbitmq_trace (relay msg ts st) =
     rabbitmq_trace st @ map (\<lambda>t. PutAll (subscribers (rabbitmq_subscriptions st) t) msg) ts"
  by (induction ts arbitrary: st) (simp_all add: effect_def)

lemma rabbitmq_provision_queues:
  "rabbitmq_queues (rabbitmq_provision topic msg st) =
     fan_out topic msg (rabbitmq_subscriptions st) (rabbitmq_queues st)"
  by (simp add: rabbitmq_provision_def relay_queues fan_out_def effect_def)

lemma rabbitmq_provision_trace:
  "rabbitmq_trace (rabbitmq_provision topic msg st) =
     rabbitmq_trace st @ [DebugRelaying msg, LockAcquire]
       @ map (\<lambda>t. PutAll (subscribers (rabbitmq_subscriptions st) t) msg)
           (matching_topics topic (rabbitmq_subscriptions st))
       @ [LockRelease]"
  by (simp add: rabbitmq_provision_def relay_trace effect_def)

lemma callback_cases:
  assumes "(callback, topic) \<in> set consumer_callbacks"
  shows "callback decoder truth delivery_tag body st =
           (case decode decoder body st of
              (msg, st1) \<Rightarrow>
                basic_ack delivery_tag
                  (case msg of
                     Some v \<Rightarrow> if truth v then rabbitmq_provision topic v st1 else st1
                   | None \<Rightarrow> st1))"
  using assms
  by (auto simp: consumer_callbacks_def provision_intel_def provision_sighting_def
      provision_snapshot_request_def provision_snapshot_envelope_def)

text \<open>
  Claim C5, as amended. For each of the four consumer callbacks, with the topic it
  provisions on: a body on which the decoder raises is logged as an error and the
  delivery is acknowledged, and nothing else changes (no queue receives anything); a body
  that decodes to a value that is true in Python is provisioned, and the delivery is
  acknowledged on the state \<^verbatim>\<open>provision\<close> returned: in the trace the acknowledgement
  comes after the debug line, the lock, every put of the fan-out and the release of the
  lock; a body that decodes to a false value is acknowledged, and is neither provisioned
  nor logged. The callback always returns.
\<close>

theorem consumer_callback_acknowledges:
  assumes "(callback, topic) \<in> set consumer_callbacks"
  shows "(decoder body = None \<longrightarrow>
            callback decoder truth delivery_tag body st
              = st\<lparr>rabbitmq_trace := rabbitmq_trace st @ [ErrorDecoding body, BasicAck delivery_tag]\<rparr>)
       \<and> (decoder body = Some v \<and> truth v \<longrightarrow>
            callback decoder truth delivery_tag body st
              = basic_ack delivery_tag (rabbitmq_provision topic v st)
            \<and> rabbitmq_trace (callback decoder truth delivery_tag body st)
              = rabbitmq_trace st @ [DebugRelaying v, LockAcquire]
                  @ map (\<lambda>t. PutAll (subscribers (rabbitmq_subscriptions st) t) v)
                      (matching_topics topic (rabbitmq_subscriptions st))
                  @ [LockRelease, BasicAck delivery_tag]
            \<and> rabbitmq_queues (callback decoder truth delivery_tag body st)
              = fan_out topic v (rabbitmq_subscriptions st) (rabbitmq_queues st))
       \<and> (decoder body = Some v \<and> \<not> truth v \<longrightarrow>
            callback decoder truth delivery_tag body st
              = st\<lparr>rabbitmq_trace := rabbitmq_trace st @ [BasicAck delivery_tag]\<rparr>)"
  unfolding callback_cases [OF assms]
  by (simp add: decode_def basic_ack_def effect_def rabbitmq_provision_queues
      rabbitmq_provision_trace)

theorem consumer_callback_acknowledges_witness:
  "provision_intel (\<lambda>body. if body = ''{}'' then Some (Intel ''intel--1'') else None) (\<lambda>v. True) 7 ''not json''
       \<lparr>rabbitmq_subscriptions = [(''threatbus/intel'', {0})], rabbitmq_queues = no_messages,
          rabbitmq_trace = []\<rparr>
     = \<lparr>rabbitmq_subscriptions = [(''threatbus/intel'', {0})], rabbitmq_queues = no_messages,
        rabbitmq_trace = [ErrorDecoding ''not json'', BasicAck 7]\<rparr>
   \<and> rabbitmq_trace
        (provision_intel (\<lambda>body. if body = ''{}'' then Some (Intel ''intel--1'') else None) (\<lambda>v. True) 8 ''{}''
           \<lparr>rabbitmq_subscriptions = [(''threatbus/intel'', {0})], rabbitmq_queues = no_messages,
              rabbitmq_trace = []\<rparr>)
     = [DebugRelaying (Intel ''intel--1''), LockAcquire, PutAll {0} (Intel ''intel--1''),
        LockRelease, BasicAck 8]
   \<and> rabbitmq_queues
        (provision_intel (\<lambda>body. if body = ''{}'' then Some (Intel ''intel--1'') else None) (\<lambda>v. True) 8 ''{}''
           \<lparr>rabbitmq_subscriptions = [(''threatbus/intel'', {0})], rabbitmq_queues = no_messages,
              rabbitmq_trace = []\<rparr>) 0
     = [Intel ''intel--1'']"
proof -
  have cb: "(provision_intel, ''threatbus/intel'') \<in> set consumer_callbacks"
    by (simp add: consumer_callbacks_def)
  show ?thesis
    using consumer_callback_acknowledges
      [OF cb, where decoder = "\<lambda>body. if body = ''{}'' then Some (Intel ''intel--1'') else None"
         and truth = "\<lambda>v. True" and delivery_tag = 7 and body = "''not json''" and v = "Intel ''intel--1''"
         and st = "\<lparr>rabbitmq_subscriptions = [(''threatbus/intel'', {0})], rabbitmq_queues = no_messages,
                     rabbitmq_trace = []\<rparr>"]
      consumer_callback_acknowledges
      [OF cb, where decoder = "\<lambda>body. if body = ''{}'' then Some (Intel ''intel--1'') else None"
         and truth = "\<lambda>v. True" and delivery_tag = 8 and body = "''{}''" and v = "Intel ''intel--1''"
         and st = "\<lparr>rabbitmq_subscriptions = [(''threatbus/intel'', {0})], rabbitmq_queues = no_messages,
                     rabbitmq_trace = []\<rparr>"]
    by (simp add: basic_ack_def effect_def rabbitmq_provision_queues rabbitmq_provision_trace
        fan_out_def matching_topics_def startswith_def subscribers_def put_all_def
        no_messages_def)
qed

text \<open>
  The claim as stated fails on a body that decodes without an exception to a value that
  is false in Python, as the body \<^verbatim>\<open>null\<close> decodes to \<^verbatim>\<open>None\<close>: the delivery is
  acknowledged, but no log entry is recorded and \<^verbatim>\<open>provision\<close> is not called, although
  a queue is subscribed to the topic.
\<close>

theorem falsy_body_only_acknowledged:
  "provision_intel (\<lambda>body. if body = ''null'' then Some None else None) (\<lambda>v. v \<noteq> None) 9 ''null''
       \<lparr>rabbitmq_subscriptions = [(''threatbus/intel'', {0})], rabbitmq_queues = no_messages,
          rabbitmq_trace = []\<rparr>
     = \<lparr>rabbitmq_subscriptions = [(''threatbus/intel'', {0})],
        rabbitmq_queues = (no_messages :: message option queues),
        rabbitmq_trace = [BasicAck 9]\<rparr>"
  by (simp add: provision_intel_def decode_def basic_ack_def effect_def)

section \<open>The topics the backbones route on\<close>

text \<open>
  The part of the routing rule that holds of both backbones: the fan-out changes a
  queue exactly when the queue is subscribed under a key that is a prefix of the topic.
\<close>

lemma fan_out_prefix_routing:
  "fan_out topic msg subs qs q \<noteq> qs q \<longleftrightarrow>
     (\<exists>t \<in> fst ` set subs. startswith topic t \<and> q \<in> subscribers subs t)"
proof -
  have "fan_out topic msg subs qs q \<noteq> qs q \<longleftrightarrow>
          filter (\<lambda>t. q \<in> subscribers subs t) (matching_topics topic subs) \<noteq> []"
    by (simp add: fan_out_queue)
  also have "\<dots> \<longleftrightarrow> (\<exists>t \<in> fst ` set subs. startswith topic t \<and> q \<in> subscribers subs t)"
    by (auto simp: filter_empty_conv matching_topics_def)
  finally show ?thesis .
qed

text \<open>
  Claim C1. The topic the in-memory backbone computes for an Indicator is
  \<^verbatim>\<open>tenzir/threatbus/indicator\<close> and for a Sighting \<^verbatim>\<open>tenzir/threatbus/sighting\<close>, not
  \<^verbatim>\<open>threatbus/intel\<close> and \<^verbatim>\<open>threatbus/sighting\<close>: a queue subscribed to
  \<^verbatim>\<open>threatbus/intel\<close> receives no Indicator. The RabbitMQ backbone provisions sightings
  on \<^verbatim>\<open>threatbus/sightings\<close>: a queue subscribed to \<^verbatim>\<open>threatbus/sightings\<close>, which is
  not a prefix of \<^verbatim>\<open>threatbus/sighting\<close>, receives the sighting.
\<close>

theorem backbone_topics_diverge:
  "inmem_topic (Indicator i) = ''tenzir/threatbus/indicator''
   \<and> inmem_topic (Sighting s) = ''tenzir/threatbus/sighting''
   \<and> inmem_queues
        (provision_step (Indicator i)
           \<lparr>inmem_subscriptions = [(''threatbus/intel'', {0})], inmem_queues = no_messages,
              inmem_debug_log = []\<rparr>) 0
       = []
   \<and> rabbitmq_queues
        (provision_sighting (\<lambda>body. Some v) (\<lambda>v. True) delivery_tag body
           \<lparr>rabbitmq_subscriptions = [(''threatbus/sightings'', {0})], rabbitmq_queues = no_messages,
              rabbitmq_trace = []\<rparr>) 0
       = [v]
   \<and> \<not> startswith ''threatbus/sighting'' ''threatbus/sightings''"
  by (simp add: inmem_topic_def lower_def lower_char_def ascii_lowercase_def ascii_uppercase_def
      provision_step_def provision_sighting_def decode_def basic_ack_def effect_def
      rabbitmq_provision_queues fan_out_def matching_topics_def startswith_def subscribers_def
      put_all_def no_messages_def)

section \<open>Properties of the mapping of indicators\<close>

text \<open>
  Claim C2. The pattern \<^verbatim>\<open>[url:value = 'http://evil.example/?a=b']\<close> has one equality
  comparison, so it passes the point-equality check; its body splits at \<^verbatim>\<open>=\<close> into
  three pieces, and unpacking them into two names raises \<^verbatim>\<open>ValueError\<close>: the mapping
  neither returns an event nor \<^verbatim>\<open>None\<close>.
\<close>

theorem equals_sign_in_value_raises:
  "is_point_equality_ioc
      (\<lambda>p. \<lparr>comparisons =
               [(''url'', [([''value''], ''='', CHR 0x27 # ''http://evil.example/?a=b'' @ [CHR 0x27])])],
             observation_ops = {}, qualifiers = {}\<rparr>)
      (''[url:value = 'http://evil.example/?a=b'' @ [CHR 0x27] @ '']'')
     = Inr True
   \<and> map_indicator_to_broker_event
      (\<lambda>p. \<lparr>comparisons =
               [(''url'', [([''value''], ''='', CHR 0x27 # ''http://evil.example/?a=b'' @ [CHR 0x27])])],
             observation_ops = {}, qualifiers = {}\<rparr>)
      (Indicator \<lparr>ind_id = ident, ind_created = created,
                  ind_pattern = ''[url:value = 'http://evil.example/?a=b'' @ [CHR 0x27] @ '']'',
                  x_threatbus_update = update\<rparr>)
      module_namespace logger
     = Inl ValueError"
  by (simp add: map_indicator_to_broker_event_def is_point_equality_ioc_def slice_1_m1_def)

text \<open>
  Claim C3. The pattern \<^verbatim>\<open>[file:name = 'a' AND file:size > 5]\<close> has two comparisons
  over one object type. The check looks at the number of object types and at the first
  comparison only, so the pattern passes, and the mapping returns an event whose value is
  the rest of the pattern's body. With two equality comparisons the body splits into
  three pieces and the mapping raises \<^verbatim>\<open>ValueError\<close>. In neither case does it return
  \<^verbatim>\<open>None\<close>.
\<close>

theorem compound_pattern_not_rejected:
  "is_point_equality_ioc
      (\<lambda>p. \<lparr>comparisons =
               [(''file'', [([''name''], ''='', CHR 0x27 # ''a'' @ [CHR 0x27]), ([''size''], ''>'', ''5'')])],
             observation_ops = {}, qualifiers = {}\<rparr>)
      ''[file:name = 'a' AND file:size > 5]''
     = Inr True
   \<and> map_indicator_to_broker_event
      (\<lambda>p. \<lparr>comparisons =
               [(''file'', [([''name''], ''='', CHR 0x27 # ''a'' @ [CHR 0x27]), ([''size''], ''>'', ''5'')])],
             observation_ops = {}, qualifiers = {}\<rparr>)
      (Indicator \<lparr>ind_id = ident, ind_created = created,
                  ind_pattern = ''[file:name = 'a' AND file:size > 5]'',
                  x_threatbus_update = None\<rparr>)
      module_namespace logger
     = Inr (Some \<lparr>event_name = module_namespace @ ''::intel'',
                   event_args =
                     [BTimestamp created, BString ident, BString ''FILE_NAME'',
                      BString (CHR 0x27 # ''a'' @ [CHR 0x27] @ '' AND file:size > 5''), BString ''ADD'']\<rparr>,
            logger)
   \<and> map_indicator_to_broker_event
      (\<lambda>p. \<lparr>comparisons =
               [(''url'', [([''value''], ''='', CHR 0x27 # ''a'' @ [CHR 0x27]),
                           ([''value''], ''='', CHR 0x27 # ''b'' @ [CHR 0x27])])],
             observation_ops = {}, qualifiers = {}\<rparr>)
      (Indicator \<lparr>ind_id = ident, ind_created = created,
                  ind_pattern = ''[url:value = 'a' AND url:value = 'b']'',
                  x_threatbus_update = None\<rparr>)
      module_namespace logger
     = Inl ValueError"
  by (simp add: map_indicator_to_broker_event_def is_point_equality_ioc_def slice_1_m1_def
      strip_def whitespace_def unquote_def startswith_def endswith_def suffix_to_prefix
      zeek_intel_type_map_def Operation_REMOVE_def)

text \<open>
  The two functions that stand for the regular expressions agree with the expressions'
  meaning: \<open>re_sub_scheme\<close> removes a prefix that \<^verbatim>\<open>https?://\<close> matches and changes
  nothing when no prefix is matched; \<open>re_match_subnet\<close> holds exactly when \<^verbatim>\<open>.+/.+\<close>
  matches a prefix.
\<close>

inductive_cases re_lang_EpsE: "re_lang Eps u"
inductive_cases re_lang_DotE: "re_lang Dot u"
inductive_cases re_lang_LitE: "re_lang (Lit c) u"
inductive_cases re_lang_OptE: "re_lang (Opt r) u"
inductive_cases re_lang_SeqE: "re_lang (Seq r s) u"

lemma re_lang_Eps: "re_lang Eps u \<longleftrightarrow> u = []"
  by (auto intro: re_lang.eps elim: re_lang_EpsE)

lemma re_lang_Lit: "re_lang (Lit c) u \<longleftrightarrow> u = [c]"
  by (auto intro: re_lang.lit elim: re_lang_LitE)

lemma re_lang_Dot: "re_lang Dot u \<longleftrightarrow> (\<exists>c. u = [c] \<and> c \<noteq> CHR 0x0A)"
  by (auto intro: re_lang.dot elim: re_lang_DotE)

lemma re_lang_Seq: "re_lang (Seq r s) u \<longleftrightarrow> (\<exists>a b. u = a @ b \<and> re_lang r a \<and> re_lang s b)"
  by (blast intro: re_lang.seq elim: re_lang_SeqE)

lemma re_lang_Opt: "re_lang (Opt r) u \<longleftrightarrow> u = [] \<or> re_lang r u"
  by (auto intro: re_lang.opt_none re_lang.opt_some elim: re_lang_OptE)

lemma re_lang_literal: "re_lang (literal p) u \<longleftrightarrow> u = p"
  by (induction p arbitrary: u) (auto simp: re_lang_Eps re_lang_Seq re_lang_Lit)

lemma re_lang_scheme: "re_lang scheme_re u \<longleftrightarrow> u = ''http://'' \<or> u = ''https://''"
proof -
  have "re_lang scheme_re u \<longleftrightarrow>
          (\<exists>a b. u = a @ b \<and> a = ''http'' \<and>
             (\<exists>c d. b = c @ d \<and> (c = [] \<or> c = ''s'') \<and> d = ''://''))"
    by (simp only: scheme_re_def re_lang_Seq re_lang_literal re_lang_Opt re_lang_Lit)
  also have "\<dots> \<longleftrightarrow> u = ''http://'' \<or> u = ''https://''"
    by auto
  finally show ?thesis .
qed

lemma re_lang_Plus_Dot_only:
  "re_lang r u \<Longrightarrow> r = Plus Dot \<Longrightarrow> u \<noteq> [] \<and> CHR 0x0A \<notin> set u"
  by (induction rule: re_lang.induct) (auto simp: re_lang_Dot)

lemma re_lang_Plus_Dot_if:
  "u \<noteq> [] \<Longrightarrow> CHR 0x0A \<notin> set u \<Longrightarrow> re_lang (Plus Dot) u"
proof (induction u)
  case Nil
  then show ?case by simp
next
  case (Cons c u)
  then have c: "re_lang Dot [c]" by (auto simp: re_lang_Dot)
  show ?case
  proof (cases "u = []")
    case True
    with c show ?thesis by (simp add: re_lang.plus_one)
  next
    case False
    with Cons have "re_lang (Plus Dot) u" by simp
    with c have "re_lang (Plus Dot) ([c] @ u)" by (rule re_lang.plus_more)
    then show ?thesis by simp
  qed
qed

lemma re_lang_Plus_Dot: "re_lang (Plus Dot) u \<longleftrightarrow> u \<noteq> [] \<and> CHR 0x0A \<notin> set u"
  using re_lang_Plus_Dot_only [of "Plus Dot" u] re_lang_Plus_Dot_if [of u] by blast

lemma re_lang_subnet:
  "re_lang subnet_re u \<longleftrightarrow>
     (\<exists>a b. u = a @ CHR ''/'' # b \<and> a \<noteq> [] \<and> b \<noteq> []
        \<and> CHR 0x0A \<notin> set a \<and> CHR 0x0A \<notin> set b)"
  by (auto simp: subnet_re_def re_lang_Seq re_lang_Lit re_lang_Plus_Dot)

lemma re_sub_scheme_regex:
  "(re_lang scheme_re u \<longrightarrow> re_sub_scheme (u @ w) = w)
   \<and> ((\<forall>u w. v = u @ w \<longrightarrow> \<not> re_lang scheme_re u) \<longrightarrow> re_sub_scheme v = v)"
proof (intro conjI impI)
  assume "re_lang scheme_re u"
  then show "re_sub_scheme (u @ w) = w"
    by (auto simp: re_lang_scheme re_sub_scheme_def startswith_def)
next
  assume no: "\<forall>u w. v = u @ w \<longrightarrow> \<not> re_lang scheme_re u"
  have "\<not> prefix p v" if "re_lang scheme_re p" for p
  proof
    assume "prefix p v"
    then obtain zs where "v = p @ zs" by (auto simp: prefix_def)
    with no that show False by blast
  qed
  then have "\<not> prefix ''https://'' v" and "\<not> prefix ''http://'' v"
    by (simp_all add: re_lang_scheme)
  then show "re_sub_scheme v = v"
    by (simp add: re_sub_scheme_def startswith_def)
qed

lemma re_match_subnet_if:
  assumes "re_match_subnet v"
  shows "\<exists>u w. v = u @ w \<and> re_lang subnet_re u"
proof -
  let ?line = "takeWhile (\<lambda>c. c \<noteq> CHR 0x0A) v"
  from assms have mem: "CHR ''/'' \<in> set (butlast (drop 1 ?line))"
    by (simp add: re_match_subnet_def)
  then have ne: "drop 1 ?line \<noteq> []" by auto
  from mem obtain p s where ps: "butlast (drop 1 ?line) = p @ CHR ''/'' # s"
    by (auto simp: in_set_conv_decomp)
  have "drop 1 ?line = butlast (drop 1 ?line) @ [last (drop 1 ?line)]"
    using append_butlast_last_id [OF ne] by (rule sym)
  then have d: "drop 1 ?line = p @ CHR ''/'' # s @ [last (drop 1 ?line)]"
    by (simp only: ps append_Cons append_assoc)
  from ne obtain c where line: "?line = c # drop 1 ?line"
    by (cases ?line) auto
  with d have l: "?line = (c # p) @ CHR ''/'' # (s @ [last (drop 1 ?line)])"
    by simp
  have nl: "CHR 0x0A \<notin> set ?line"
    by (auto dest: set_takeWhileD)
  have "re_lang subnet_re ?line"
    unfolding re_lang_subnet
    apply (rule exI [of _ "c # p"], rule exI [of _ "s @ [last (drop 1 ?line)]"])
    using l nl apply (metis Un_iff append_is_Nil_conv list.distinct(1) list.set_intros(2) set_append)
    done
  moreover have "v = ?line @ dropWhile (\<lambda>c. c \<noteq> CHR 0x0A) v"
    by simp
  ultimately show ?thesis by blast
qed

lemma re_match_subnet_only:
  assumes "v = u @ w" and "re_lang subnet_re u"
  shows "re_match_subnet v"
proof -
  from assms(2) obtain a b where u: "u = a @ CHR ''/'' # b" and a: "a \<noteq> []" and b: "b \<noteq> []"
    and nla: "CHR 0x0A \<notin> set a" and nlb: "CHR 0x0A \<notin> set b"
    by (auto simp: re_lang_subnet)
  define line where "line = takeWhile (\<lambda>c. c \<noteq> CHR 0x0A) (u @ w)"
  define rest where "rest = b @ takeWhile (\<lambda>c. c \<noteq> CHR 0x0A) w"
  have "\<forall>x \<in> set u. x \<noteq> CHR 0x0A"
    using u nla nlb by auto
  then have "line = u @ takeWhile (\<lambda>c. c \<noteq> CHR 0x0A) w"
    unfolding line_def by (simp add: takeWhile_append2)
  moreover from a obtain c a' where "a = c # a'" by (cases a) auto
  ultimately have "drop 1 line = a' @ CHR ''/'' # rest"
    by (simp add: u rest_def)
  moreover have "rest \<noteq> []" using b by (simp add: rest_def)
  ultimately have "butlast (drop 1 line) = a' @ CHR ''/'' # butlast rest"
    by (simp add: butlast_append)
  then have "CHR ''/'' \<in> set (butlast (drop 1 line))"
    by simp
  with assms(1) show ?thesis by (simp add: re_match_subnet_def line_def)
qed

lemma re_match_subnet_regex:
  "re_match_subnet v \<longleftrightarrow> (\<exists>u w. v = u @ w \<and> re_lang subnet_re u)"
  using re_match_subnet_if re_match_subnet_only by blast

text \<open>
  What the mapping returns for an indicator that passes the point-equality check, whose
  pattern body has exactly one \<^verbatim>\<open>=\<close>, and whose object path is in the table.
\<close>

lemma mapped_point_ioc:
  assumes "is_point_equality_ioc inspect (ind_pattern indicator) = Inr True"
    and "py_split CHR ''='' (slice_1_m1 (ind_pattern indicator)) = [object_path, ioc_value]"
    and "zeek_intel_type_map (strip object_path) = Some zeek_type"
  shows "map_indicator_to_broker_event inspect (Indicator indicator) module_namespace logger =
           Inr (Some \<lparr>event_name = module_namespace @ ''::intel'',
                       event_args =
                         [BTimestamp (ind_created indicator),
                          BString (ind_id indicator),
                          BString (if zeek_type \<noteq> ''URL'' \<and> zeek_type = ''ADDR''
                                      \<and> re_match_subnet (unquote (strip ioc_value))
                                   then ''SUBNET'' else zeek_type),
                          BString (if zeek_type = ''URL'' then re_sub_scheme (unquote (strip ioc_value))
                                   else unquote (strip ioc_value)),
                          BString (if x_threatbus_update indicator = Some Operation_REMOVE
                                   then ''REMOVE'' else ''ADD'')]\<rparr>,
                logger)"
  using assms by (simp add: map_indicator_to_broker_event_def Let_def)

lemma re_sub_scheme_cases:
  "(startswith v ''https://'' \<longrightarrow> v = ''https://'' @ re_sub_scheme v)
   \<and> (startswith v ''http://'' \<longrightarrow> v = ''http://'' @ re_sub_scheme v)
   \<and> (\<not> startswith v ''https://'' \<and> \<not> startswith v ''http://'' \<longrightarrow> re_sub_scheme v = v)"
proof -
  have a: "v = ''https://'' @ drop 8 v" if "prefix ''https://'' v"
    using that by (auto simp: prefix_def)
  have b: "v = ''http://'' @ drop 7 v" if "prefix ''http://'' v"
    using that by (auto simp: prefix_def)
  have c: "\<not> prefix ''https://'' v" if "prefix ''http://'' v"
    using that by (auto simp: prefix_def)
  show ?thesis
    using a b c by (auto simp: re_sub_scheme_def startswith_def)
qed

text \<open>
  Where the pattern body has exactly one \<^verbatim>\<open>=\<close>, the two post-processing rules are what
  the mapping does. For an object path that maps to \<^verbatim>\<open>URL\<close> the event carries the
  unquoted value after \<^verbatim>\<open>re.sub(r"^https?://", "", ...)\<close>, which removes exactly a leading
  \<^verbatim>\<open>https://\<close> or \<^verbatim>\<open>http://\<close>, once. For an object path that maps to \<^verbatim>\<open>ADDR\<close> the
  tag is \<^verbatim>\<open>SUBNET\<close> when \<^verbatim>\<open>.+/.+\<close> matches a prefix of the unquoted value and \<^verbatim>\<open>ADDR\<close>
  otherwise. The two patterns of the spec's boundary cases are translated as the spec says.
\<close>

lemma mapped_url_value:
  assumes "is_point_equality_ioc inspect (ind_pattern indicator) = Inr True"
    and "py_split CHR ''='' (slice_1_m1 (ind_pattern indicator)) = [object_path, ioc_value]"
    and "zeek_intel_type_map (strip object_path) = Some ''URL''"
  shows "map_indicator_to_broker_event inspect (Indicator indicator) module_namespace logger =
           Inr (Some \<lparr>event_name = module_namespace @ ''::intel'',
                       event_args =
                         [BTimestamp (ind_created indicator),
                          BString (ind_id indicator),
                          BString ''URL'',
                          BString (re_sub_scheme (unquote (strip ioc_value))),
                          BString (if x_threatbus_update indicator = Some Operation_REMOVE
                                   then ''REMOVE'' else ''ADD'')]\<rparr>,
                logger)"
  using mapped_point_ioc [OF assms] by simp

lemma mapped_addr_tag:
  assumes "is_point_equality_ioc inspect (ind_pattern indicator) = Inr True"
    and "py_split CHR ''='' (slice_1_m1 (ind_pattern indicator)) = [object_path, ioc_value]"
    and "zeek_intel_type_map (strip object_path) = Some ''ADDR''"
  shows "map_indicator_to_broker_event inspect (Indicator indicator) module_namespace logger =
           Inr (Some \<lparr>event_name = module_namespace @ ''::intel'',
                       event_args =
                         [BTimestamp (ind_created indicator),
                          BString (ind_id indicator),
                          BString (if re_match_subnet (unquote (strip ioc_value))
                                   then ''SUBNET'' else ''ADDR''),
                          BString (unquote (strip ioc_value)),
                          BString (if x_threatbus_update indicator = Some Operation_REMOVE
                                   then ''REMOVE'' else ''ADD'')]\<rparr>,
                logger)"
  using mapped_point_ioc [OF assms] by simp

lemma boundary_url_pattern:
  "map_indicator_to_broker_event
      (\<lambda>p. \<lparr>comparisons =
               [(''url'', [([''value''], ''='', CHR 0x27 # ''https://evil.example/'' @ [CHR 0x27])])],
             observation_ops = {}, qualifiers = {}\<rparr>)
      (Indicator \<lparr>ind_id = ''indicator--1'', ind_created = 1577836800,
                  ind_pattern = ''[url:value = 'https://evil.example/'' @ [CHR 0x27] @ '']'',
                  x_threatbus_update = None\<rparr>)
      ''Tb'' None
     = Inr (Some \<lparr>event_name = ''Tb::intel'',
                   event_args =
                     [BTimestamp 1577836800, BString ''indicator--1'', BString ''URL'',
                      BString ''evil.example/'', BString ''ADD'']\<rparr>,
            None)"
  by (simp add: map_indicator_to_broker_event_def is_point_equality_ioc_def slice_1_m1_def
      strip_def whitespace_def unquote_def startswith_def endswith_def suffix_to_prefix
      zeek_intel_type_map_def re_sub_scheme_def Operation_REMOVE_def)

lemma boundary_subnet_pattern:
  "map_indicator_to_broker_event
      (\<lambda>p. \<lparr>comparisons =
               [(''ipv4-addr'', [([''value''], ''='', CHR 0x27 # ''10.0.0.0/8'' @ [CHR 0x27])])],
             observation_ops = {}, qualifiers = {}\<rparr>)
      (Indicator \<lparr>ind_id = ''indicator--2'', ind_created = 1577836800,
                  ind_pattern = ''[ipv4-addr:value = '10.0.0.0/8'' @ [CHR 0x27] @ '']'',
                  x_threatbus_update = None\<rparr>)
      ''Tb'' None
     = Inr (Some \<lparr>event_name = ''Tb::intel'',
                   event_args =
                     [BTimestamp 1577836800, BString ''indicator--2'', BString ''SUBNET'',
                      BString ''10.0.0.0/8'', BString ''ADD'']\<rparr>,
            None)"
  by (simp add: map_indicator_to_broker_event_def is_point_equality_ioc_def slice_1_m1_def
      strip_def whitespace_def unquote_def startswith_def endswith_def suffix_to_prefix
      zeek_intel_type_map_def re_match_subnet_def Operation_REMOVE_def)

text \<open>
  Whitespace that is not ASCII is stripped as well: with a no-break space after the
  closing quote the value is still unquoted, and \<^verbatim>\<open>'/8'\<close> followed by a no-break space
  gives the value \<^verbatim>\<open>/8\<close> and the tag \<^verbatim>\<open>ADDR\<close>.
\<close>

lemma no_break_space_stripped:
  "map_indicator_to_broker_event
      (\<lambda>p. \<lparr>comparisons =
               [(''ipv4-addr'', [([''value''], ''='', CHR 0x27 # ''/8'' @ [CHR 0x27])])],
             observation_ops = {}, qualifiers = {}\<rparr>)
      (Indicator \<lparr>ind_id = ''indicator--3'', ind_created = 1577836800,
                  ind_pattern = ''[ipv4-addr:value = '/8'' @ [CHR 0x27, CHR 0xA0] @ '']'',
                  x_threatbus_update = None\<rparr>)
      ''Tb'' None
     = Inr (Some \<lparr>event_name = ''Tb::intel'',
                   event_args =
                     [BTimestamp 1577836800, BString ''indicator--3'', BString ''ADDR'',
                      BString ''/8'', BString ''ADD'']\<rparr>,
            None)"
  by (simp add: map_indicator_to_broker_event_def is_point_equality_ioc_def slice_1_m1_def
      strip_def whitespace_def unquote_def startswith_def endswith_def suffix_to_prefix
      zeek_intel_type_map_def re_match_subnet_def Operation_REMOVE_def)

text \<open>
  Claim C7. The pattern \<^verbatim>\<open>[url:value = 'https://evil.example/?q=1']\<close> has one equality
  comparison and passes the point-equality check, and the piece before its first
  \<^verbatim>\<open>=\<close> is the object path \<^verbatim>\<open>url:value\<close>, which maps to \<^verbatim>\<open>URL\<close>. The claim asks for an
  event with the value \<^verbatim>\<open>evil.example/?q=1\<close>, the literal without its scheme. The body
  splits at \<^verbatim>\<open>=\<close> into three pieces, and the mapping raises \<^verbatim>\<open>ValueError\<close>: no event
  and no stripped value is produced.
\<close>

theorem url_with_equals_sign_raises:
  "is_point_equality_ioc
      (\<lambda>p. \<lparr>comparisons =
               [(''url'', [([''value''], ''='', CHR 0x27 # ''https://evil.example/?q=1'' @ [CHR 0x27])])],
             observation_ops = {}, qualifiers = {}\<rparr>)
      (''[url:value = 'https://evil.example/?q=1'' @ [CHR 0x27] @ '']'')
     = Inr True
   \<and> py_split CHR ''='' (slice_1_m1 (''[url:value = 'https://evil.example/?q=1'' @ [CHR 0x27] @ '']''))
     = [''url:value '', '' 'https://evil.example/?q'', ''1'' @ [CHR 0x27]]
   \<and> zeek_intel_type_map (strip ''url:value '') = Some ''URL''
   \<and> re_sub_scheme ''https://evil.example/?q=1'' = ''evil.example/?q=1''
   \<and> map_indicator_to_broker_event
      (\<lambda>p. \<lparr>comparisons =
               [(''url'', [([''value''], ''='', CHR 0x27 # ''https://evil.example/?q=1'' @ [CHR 0x27])])],
             observation_ops = {}, qualifiers = {}\<rparr>)
      (Indicator \<lparr>ind_id = ident, ind_created = created,
                  ind_pattern = ''[url:value = 'https://evil.example/?q=1'' @ [CHR 0x27] @ '']'',
                  x_threatbus_update = update\<rparr>)
      module_namespace logger
     = Inl ValueError"
  by (simp add: map_indicator_to_broker_event_def is_point_equality_ioc_def slice_1_m1_def
      strip_def whitespace_def zeek_intel_type_map_def re_sub_scheme_def startswith_def)

text \<open>
  Claim C8. The pattern \<^verbatim>\<open>[ipv4-addr:value = '10.0.0.0/8=x']\<close> has one equality comparison
  and passes the point-equality check, and the piece before its first \<^verbatim>\<open>=\<close> is the
  object path \<^verbatim>\<open>ipv4-addr:value\<close>, which maps to \<^verbatim>\<open>ADDR\<close>. Its value \<^verbatim>\<open>10.0.0.0/8=x\<close>
  matches \<^verbatim>\<open>.+/.+\<close>, so the claim asks for an event with the tag \<^verbatim>\<open>SUBNET\<close>. The body
  splits at \<^verbatim>\<open>=\<close> into three pieces, and the mapping raises \<^verbatim>\<open>ValueError\<close>: no tag is
  emitted.
\<close>

theorem addr_with_equals_sign_raises:
  "is_point_equality_ioc
      (\<lambda>p. \<lparr>comparisons =
               [(''ipv4-addr'', [([''value''], ''='', CHR 0x27 # ''10.0.0.0/8=x'' @ [CHR 0x27])])],
             observation_ops = {}, qualifiers = {}\<rparr>)
      (''[ipv4-addr:value = '10.0.0.0/8=x'' @ [CHR 0x27] @ '']'')
     = Inr True
   \<and> py_split CHR ''='' (slice_1_m1 (''[ipv4-addr:value = '10.0.0.0/8=x'' @ [CHR 0x27] @ '']''))
     = [''ipv4-addr:value '', '' '10.0.0.0/8'', ''x'' @ [CHR 0x27]]
   \<and> zeek_intel_type_map (strip ''ipv4-addr:value '') = Some ''ADDR''
   \<and> re_match_subnet ''10.0.0.0/8=x''
   \<and> map_indicator_to_broker_event
      (\<lambda>p. \<lparr>comparisons =
               [(''ipv4-addr'', [([''value''], ''='', CHR 0x27 # ''10.0.0.0/8=x'' @ [CHR 0x27])])],
             observation_ops = {}, qualifiers = {}\<rparr>)
      (Indicator \<lparr>ind_id = ident, ind_created = created,
                  ind_pattern = ''[ipv4-addr:value = '10.0.0.0/8=x'' @ [CHR 0x27] @ '']'',
                  x_threatbus_update = update\<rparr>)
      module_namespace logger
     = Inl ValueError"
  by (simp add: map_indicator_to_broker_event_def is_point_equality_ioc_def slice_1_m1_def
      strip_def whitespace_def zeek_intel_type_map_def re_match_subnet_def)

section \<open>Properties of the Zeek plugin's subscriptions\<close>

lemma length_rand_string: "length (rand_string len draws) = len"
  by (simp add: rand_string_def)

lemma rand_string_lowercase: "set (rand_string len draws) \<subseteq> set ascii_lowercase"
proof -
  have "ascii_lowercase ! (draws i mod length ascii_lowercase) \<in> set ascii_lowercase" for i
    by (rule nth_mem) (simp add: ascii_lowercase_def)
  then show ?thesis by (auto simp: rand_string_def)
qed

text \<open>
  Claim C6, as amended. For a Subscription with the topic \<open>t\<close>, the p2p-topic is \<open>t\<close>
  followed by ten lowercase letters drawn from the random generator, with no check
  against the p2p-topics in use. This p2p-topic is the argument of the
  \<^verbatim>\<open>subscription_acknowledged\<close> event published on \<^verbatim>\<open>threatbus/manage\<close> and the key
  under which the new queue is stored. Two p2p-topics are equal only when topic and
  suffix both are; when the new p2p-topic is not a key of the dictionary, it differs from
  the key of every earlier subscription and every earlier entry is kept.
\<close>

theorem subscription_p2p_topic:
  "length (rand_string 10 draws) = 10
   \<and> set (rand_string 10 draws) \<subseteq> set ascii_lowercase
   \<and> manage_subscription module_namespace draws (Subscription (BString t) snapshot) st
       = Inr (st\<lparr>zeek_trace :=
                    zeek_trace st @
                      [InfoSubscription (BString t),
                       Publish ''threatbus/manage''
                         \<lparr>event_name = module_namespace @ ''::subscription_acknowledged'',
                            event_args = [BString (t @ rand_string 10 draws)]\<rparr>,
                       SubscribeCallback t (next_queue st) snapshot],
                  next_queue := Suc (next_queue st),
                  zeek_subscriptions :=
                    (zeek_subscriptions st)(t @ rand_string 10 draws \<mapsto> next_queue st)\<rparr>)
   \<and> (t @ rand_string 10 draws = t' @ rand_string 10 draws'
        \<longrightarrow> t = t' \<and> rand_string 10 draws = rand_string 10 draws')
   \<and> (zeek_subscriptions st (t @ rand_string 10 draws) = None \<and> zeek_subscriptions st k = Some q
        \<longrightarrow> k \<noteq> t @ rand_string 10 draws
            \<and> ((zeek_subscriptions st)(t @ rand_string 10 draws \<mapsto> next_queue st)) k = Some q)"
proof (intro conjI impI)
  show "length (rand_string 10 draws) = 10"
    by (rule length_rand_string)
  show "set (rand_string 10 draws) \<subseteq> set ascii_lowercase"
    by (rule rand_string_lowercase)
  show "manage_subscription module_namespace draws (Subscription (BString t) snapshot) st
       = Inr (st\<lparr>zeek_trace :=
                    zeek_trace st @
                      [InfoSubscription (BString t),
                       Publish ''threatbus/manage''
                         \<lparr>event_name = module_namespace @ ''::subscription_acknowledged'',
                            event_args = [BString (t @ rand_string 10 draws)]\<rparr>,
                       SubscribeCallback t (next_queue st) snapshot],
                  next_queue := Suc (next_queue st),
                  zeek_subscriptions :=
                    (zeek_subscriptions st)(t @ rand_string 10 draws \<mapsto> next_queue st)\<rparr>)"
    by (simp add: manage_subscription_def Let_def)
  assume eq: "t @ rand_string 10 draws = t' @ rand_string 10 draws'"
  have "length (rand_string 10 draws) = length (rand_string 10 draws')"
    by (simp add: length_rand_string)
  with eq show "t = t'" and "rand_string 10 draws = rand_string 10 draws'"
    by simp_all
next
  assume "zeek_subscriptions st (t @ rand_string 10 draws) = None \<and> zeek_subscriptions st k = Some q"
  then show "k \<noteq> t @ rand_string 10 draws"
    and "((zeek_subscriptions st)(t @ rand_string 10 draws \<mapsto> next_queue st)) k = Some q"
    by auto
qed

theorem subscription_p2p_topic_witness:
  "manage_subscription ''Tb'' id (Subscription (BString ''threatbus/intel'') (BTimespan 0))
      \<lparr>zeek_subscriptions = [''threatbus/sightingzyxwvutsrq'' \<mapsto> 0], next_queue = 1, zeek_trace = []\<rparr>
     = Inr \<lparr>zeek_subscriptions =
              [''threatbus/sightingzyxwvutsrq'' \<mapsto> 0, ''threatbus/intelabcdefghij'' \<mapsto> 1],
            next_queue = 2,
            zeek_trace =
              [InfoSubscription (BString ''threatbus/intel''),
               Publish ''threatbus/manage''
                 \<lparr>event_name = ''Tb::subscription_acknowledged'',
                    event_args = [BString ''threatbus/intelabcdefghij'']\<rparr>,
               SubscribeCallback ''threatbus/intel'' 1 (BTimespan 0)]\<rparr>
   \<and> rand_string 10 id = ''abcdefghij''"
  using subscription_p2p_topic
    [where module_namespace = "''Tb''" and draws = id and t = "''threatbus/intel''"
       and snapshot = "BTimespan 0"
       and st = "\<lparr>zeek_subscriptions = [''threatbus/sightingzyxwvutsrq'' \<mapsto> 0], next_queue = 1,
                   zeek_trace = []\<rparr>"
       and t' = "''threatbus/intel''" and draws' = id
       and k = "''threatbus/sightingzyxwvutsrq''" and q = 0]
  by (simp add: rand_string_def ascii_lowercase_def upt_rec)

text \<open>
  The claim as stated fails: two Subscriptions for the same topic for which the generator
  yields the same letters get the same p2p-topic, and the second entry replaces the
  first in the dictionary.
\<close>

theorem p2p_topic_not_unique:
  "manage_subscription ''Tb'' id (Subscription (BString ''threatbus/intel'') (BTimespan 0))
      \<lparr>zeek_subscriptions = Map.empty, next_queue = 0, zeek_trace = []\<rparr>
     = Inr \<lparr>zeek_subscriptions = [''threatbus/intelabcdefghij'' \<mapsto> 0],
            next_queue = 1,
            zeek_trace =
              [InfoSubscription (BString ''threatbus/intel''),
               Publish ''threatbus/manage''
                 \<lparr>event_name = ''Tb::subscription_acknowledged'',
                    event_args = [BString ''threatbus/intelabcdefghij'']\<rparr>,
               SubscribeCallback ''threatbus/intel'' 0 (BTimespan 0)]\<rparr>
   \<and> manage_subscription ''Tb'' id (Subscription (BString ''threatbus/intel'') (BTimespan 0))
      \<lparr>zeek_subscriptions = [''threatbus/intelabcdefghij'' \<mapsto> 0],
         next_queue = 1,
         zeek_trace =
           [InfoSubscription (BString ''threatbus/intel''),
            Publish ''threatbus/manage''
              \<lparr>event_name = ''Tb::subscription_acknowledged'',
                 event_args = [BString ''threatbus/intelabcdefghij'']\<rparr>,
            SubscribeCallback ''threatbus/intel'' 0 (BTimespan 0)]\<rparr>
     = Inr \<lparr>zeek_subscriptions = [''threatbus/intelabcdefghij'' \<mapsto> 1],
            next_queue = 2,
            zeek_trace =
              [InfoSubscription (BString ''threatbus/intel''),
               Publish ''threatbus/manage''
                 \<lparr>event_name = ''Tb::subscription_acknowledged'',
                    event_args = [BString ''threatbus/intelabcdefghij'']\<rparr>,
               SubscribeCallback ''threatbus/intel'' 0 (BTimespan 0),
               InfoSubscription (BString ''threatbus/intel''),
               Publish ''threatbus/manage''
                 \<lparr>event_name = ''Tb::subscription_acknowledged'',
                    event_args = [BString ''threatbus/intelabcdefghij'']\<rparr>,
               SubscribeCallback ''threatbus/intel'' 1 (BTimespan 0)]\<rparr>"
  by (simp add: manage_subscription_def Let_def rand_string_def ascii_lowercase_def upt_rec)

end
